theory Spec2Isabelle
  imports Main "HOL-Library.Multiset"
begin

section \<open>JavaScript containers used by the registry and the engine\<close>

text \<open>
  A JavaScript \<open>Map\<close> iterates in insertion order, \<open>set\<close> on a key that is present
  replaces the value where the key stands, \<open>set\<close> on a new key appends, and \<open>delete\<close>
  removes the key. It is modelled as an association list with exactly these operations.
\<close>

fun map_set :: "'k \<Rightarrow> 'v \<Rightarrow> ('k \<times> 'v) list \<Rightarrow> ('k \<times> 'v) list" where
  "map_set k v [] = [(k, v)]"
| "map_set k v ((k', v') # kvs) =
     (if k' = k then (k, v) # kvs else (k', v') # map_set k v kvs)"

fun map_get :: "('k \<times> 'v) list \<Rightarrow> 'k \<Rightarrow> 'v option" where
  "map_get [] k = None"
| "map_get ((k', v') # kvs) k = (if k' = k then Some v' else map_get kvs k)"

fun map_delete :: "'k \<Rightarrow> ('k \<times> 'v) list \<Rightarrow> ('k \<times> 'v) list" where
  "map_delete k [] = []"
| "map_delete k ((k', v') # kvs) =
     (if k' = k then map_delete k kvs else (k', v') # map_delete k kvs)"

text \<open>
  \<open>Array.prototype.indexOf\<close> (strict equality, \<open>-1\<close> when the value is missing) and
  \<open>splice(index, 1)\<close>.
\<close>

fun indexOf :: "'a list \<Rightarrow> 'a \<Rightarrow> int" where
  "indexOf [] x = - 1"
| "indexOf (y # ys) x =
     (if y = x then 0
      else (let i = indexOf ys x in if i > - 1 then i + 1 else - 1))"

definition splice1 :: "'a list \<Rightarrow> nat \<Rightarrow> 'a list" where
  "splice1 xs index = take index xs @ drop (Suc index) xs"

text \<open>
  The idiom \<open>const index = list.indexOf(x); if (index > -1) list.splice(index, 1)\<close>,
  which both \<open>unregister\<close> and the unsubscribe closure of \<open>onProgress\<close> use.
\<close>

definition removeAtIndexOf :: "'a \<Rightarrow> 'a list \<Rightarrow> 'a list" where
  "removeAtIndexOf x xs =
     (let index = indexOf xs x in if index > - 1 then splice1 xs (nat index) else xs)"

text \<open>
  \<open>Array.prototype.sort(compare)\<close>: a stable sort (ECMAScript 2019) that puts \<open>a\<close> before
  \<open>b\<close> when \<open>compare(a, b) < 0\<close> and keeps the order of elements that compare equal.
  It is modelled as insertion sort from the right, which is stable.
\<close>

fun insert_by :: "('a \<Rightarrow> 'a \<Rightarrow> int) \<Rightarrow> 'a \<Rightarrow> 'a list \<Rightarrow> 'a list" where
  "insert_by cmp x [] = [x]"
| "insert_by cmp x (y # ys) =
     (if cmp x y \<le> 0 then x # y # ys else y # insert_by cmp x ys)"

definition array_sort :: "('a \<Rightarrow> 'a \<Rightarrow> int) \<Rightarrow> 'a list \<Rightarrow> 'a list" where
  "array_sort cmp xs = foldr (insert_by cmp) xs []"

section \<open>Models (baseModel.js)\<close>

text \<open>
  A value that is thrown, or that a promise rejects with. JavaScript throws any value:
  \<open>Error m\<close> is an object whose \<open>message\<close> property is the string \<open>m\<close> (an \<open>Error\<close>
  object), \<open>Nullish\<close> is \<open>null\<close> or \<open>undefined\<close>, and \<open>Other\<close> is any other value, one whose
  \<open>message\<close> property reads \<open>undefined\<close>.
\<close>

datatype error = Error string | Nullish | Other

text \<open>
  An evaluation that ends normally with a value, or throws the \<open>TypeError\<close> that reading
  a property of \<open>null\<close> or \<open>undefined\<close> throws.
\<close>

datatype 'a completion = Normal 'a | TypeError

text \<open>The property read \<open>error.message\<close>; \<open>None\<close> is \<open>undefined\<close>.\<close>

fun read_message :: "error \<Rightarrow> string option completion" where
  "read_message (Error m) = Normal (Some m)"
| "read_message Other = Normal None"
| "read_message Nullish = TypeError"

text \<open>The descriptor returned by \<open>getCapabilities()\<close>: \<open>{type, role, priority, supports}\<close>.\<close>

record capabilities =
  cap_type :: string
  cap_role :: string
  cap_priority :: int
  cap_supports :: "string list"

text \<open>
  The context object handed to \<open>analyze\<close>: \<open>{}\<close> is the empty list,
  \<open>{detections: d}\<close> is \<open>[(''detections'', d)]\<close>.
\<close>

type_synonym 'o ctx = "(string \<times> 'o) list"

text \<open>
  A model object. \<open>analyze\<close> is an async method that resolves with an output or rejects
  with an error; the outcome of a call is \<open>Inr output\<close> or \<open>Inl error\<close>, and the model
  fixes the outcome for each input and context. One run is followed from its call to its
  result: while it awaits, nothing changes the registry, and only the callbacks it calls
  change the observer list.
  \<open>constructor_name\<close> is \<open>model.constructor.name\<close>; the console output of the source
  is left out.
\<close>

record ('i, 'o) model =
  constructor_name :: string
  getCapabilities :: capabilities
  analyze :: "'i \<Rightarrow> 'o ctx \<Rightarrow> error + 'o"

section \<open>Model registry (modelRegistry.js)\<close>

record ('i, 'o) registration =
  model :: "('i, 'o) model"
  priority :: int
  fallbackFor :: "string option"
  enabled :: bool

text \<open>
  The \<open>options\<close> argument of \<open>register\<close>. \<open>None\<close> is a property that is absent,
  \<open>undefined\<close> or \<open>null\<close>.
\<close>

record options =
  opt_priority :: "int option"
  opt_fallbackFor :: "string option"
  opt_enabled :: "bool option"

text \<open>
  \<open>this.models\<close> is a \<open>Map\<close> whose iteration order \<open>getByCapability\<close> observes;
  \<open>this.fallbacks\<close> is a \<open>Map\<close> from a primary id to an array of ids, of which only
  lookups and per-key updates are observed.
\<close>

record ('i, 'o) registry =
  models :: "(string \<times> ('i, 'o) registration) list"
  fallbacks :: "string \<rightharpoonup> string list"

definition new_ModelRegistry :: "('i, 'o) registry" where
  "new_ModelRegistry = \<lparr> models = [], fallbacks = Map.empty \<rparr>"

text \<open>\<open>options.priority || 1\<close>: every falsy value, \<open>0\<close> among them, gives \<open>1\<close>.\<close>

definition priority_or_1 :: "int option \<Rightarrow> int" where
  "priority_or_1 p = (case p of None \<Rightarrow> 1 | Some n \<Rightarrow> if n = 0 then 1 else n)"

text \<open>\<open>options.fallbackFor || null\<close>: the empty string is falsy too.\<close>

definition fallbackFor_or_null :: "string option \<Rightarrow> string option" where
  "fallbackFor_or_null f = (case f of None \<Rightarrow> None | Some s \<Rightarrow> if s = [] then None else Some s)"

text \<open>\<open>options.enabled !== false\<close>.\<close>

definition enabled_not_false :: "bool option \<Rightarrow> bool" where
  "enabled_not_false e = (e \<noteq> Some False)"

definition make_registration :: "('i, 'o) model \<Rightarrow> options \<Rightarrow> ('i, 'o) registration" where
  "make_registration m opts =
     \<lparr> model = m,
       priority = priority_or_1 (opt_priority opts),
       fallbackFor = fallbackFor_or_null (opt_fallbackFor opts),
       enabled = enabled_not_false (opt_enabled opts) \<rparr>"

text \<open>
  The fallback part of \<open>register\<close>: create the chain when the primary has none, then
  \<open>push(id)\<close>. The source's parameter \<open>id\<close> is written \<open>ident\<close> throughout, \<open>image\<close>
  is written \<open>img\<close> and \<open>total\<close> is written \<open>totalSteps\<close>, since HOL has constants of
  these names.
\<close>

definition push_fallback :: "string \<Rightarrow> string \<Rightarrow> (string \<rightharpoonup> string list) \<Rightarrow> (string \<rightharpoonup> string list)" where
  "push_fallback primary ident fbs =
     (let fbs1 = (if fbs primary = None then fbs(primary \<mapsto> []) else fbs)
      in case fbs1 primary of
           None \<Rightarrow> fbs1
         | Some chain \<Rightarrow> fbs1(primary \<mapsto> chain @ [ident]))"

definition register :: "string \<Rightarrow> ('i, 'o) model \<Rightarrow> options \<Rightarrow> ('i, 'o) registry \<Rightarrow> ('i, 'o) registry" where
  "register ident m opts r =
     (let registration = make_registration m opts;
          models1 = map_set ident registration (models r)
      in case fallbackFor registration of
           None \<Rightarrow> r\<lparr> models := models1 \<rparr>
         | Some primary \<Rightarrow>
             r\<lparr> models := models1, fallbacks := push_fallback primary ident (fallbacks r) \<rparr>)"

definition unregister :: "string \<Rightarrow> ('i, 'o) registry \<Rightarrow> ('i, 'o) registry" where
  "unregister ident r =
     r\<lparr> models := map_delete ident (models r),
        fallbacks := (\<lambda>key. map_option (removeAtIndexOf ident) (fallbacks r key)) \<rparr>"

text \<open>\<open>get\<close>: \<open>registration?.enabled ? registration.model : null\<close>.\<close>

definition get :: "('i, 'o) registry \<Rightarrow> string \<Rightarrow> ('i, 'o) model option" where
  "get r ident =
     (case map_get (models r) ident of
        None \<Rightarrow> None
      | Some registration \<Rightarrow> if enabled registration then Some (model registration) else None)"

text \<open>The \<open>{type, role}\<close> argument of \<open>getByCapability\<close>; \<open>None\<close> is \<open>undefined\<close>.\<close>

record capability_filter =
  flt_type :: "string option"
  flt_role :: "string option"

text \<open>\<open>!type || caps.type === type\<close>: an undefined or empty filter field is falsy.\<close>

definition field_match :: "string option \<Rightarrow> string \<Rightarrow> bool" where
  "field_match wanted actual =
     (case wanted of None \<Rightarrow> True | Some w \<Rightarrow> w = [] \<or> actual = w)"

text \<open>An element \<open>{id, model, priority}\<close> of the array \<open>getByCapability\<close> returns.\<close>

record ('i, 'o) match =
  match_id :: string
  match_model :: "('i, 'o) model"
  match_priority :: int

fun collect_matches ::
  "capability_filter \<Rightarrow> (string \<times> ('i, 'o) registration) list \<Rightarrow> ('i, 'o) match list" where
  "collect_matches flt [] = []"
| "collect_matches flt ((ident, registration) # rest) =
     (if \<not> enabled registration then collect_matches flt rest
      else
        (let caps = getCapabilities (model registration);
             typeMatch = field_match (flt_type flt) (cap_type caps);
             roleMatch = field_match (flt_role flt) (cap_role caps)
         in if typeMatch \<and> roleMatch
            then \<lparr> match_id = ident, match_model = model registration,
                   match_priority = priority registration \<rparr> # collect_matches flt rest
            else collect_matches flt rest))"

definition getByCapability :: "('i, 'o) registry \<Rightarrow> capability_filter \<Rightarrow> ('i, 'o) match list" where
  "getByCapability r flt =
     array_sort (\<lambda>a b. match_priority b - match_priority a) (collect_matches flt (models r))"

text \<open>
  \<open>getFallbacks\<close>: \<open>(this.fallbacks.get(id) || []).map(fid => this.get(fid)).filter(m => m !== null)\<close>.
\<close>

definition getFallbacks :: "('i, 'o) registry \<Rightarrow> string \<Rightarrow> ('i, 'o) model list" where
  "getFallbacks r ident =
     (let fallbackIds = (case fallbacks r ident of None \<Rightarrow> [] | Some ids \<Rightarrow> ids)
      in map the (filter (\<lambda>m. m \<noteq> None) (map (get r) fallbackIds)))"

text \<open>The fallback chain recorded for a primary id (empty when none was ever created).\<close>

definition chain_of :: "('i, 'o) registry \<Rightarrow> string \<Rightarrow> string list" where
  "chain_of r primary = (case fallbacks r primary of None \<Rightarrow> [] | Some ids \<Rightarrow> ids)"

section \<open>Pipeline engine (pipelineEngine.js)\<close>

subsection \<open>PipelineResult\<close>

text \<open>
  An element of \<open>result.steps\<close>: \<open>{name, duration, success, error?}\<close>. \<open>step_error\<close> is
  \<open>None\<close> when the property is absent or \<open>undefined\<close>.
\<close>

record step_record =
  step_name :: string
  step_duration :: int
  step_success :: bool
  step_error :: "string option"

text \<open>
  \<open>outputs\<close> is a plain object keyed by step name; property assignment keeps the place of a
  key that exists and appends a new one, as \<open>map_set\<close> does.
\<close>

record 'o PipelineResult =
  steps :: "step_record list"
  outputs :: "(string \<times> 'o) list"
  startTime :: int
  endTime :: "int option"
  success :: bool
  error :: "error option"

text \<open>The constructor; \<open>now\<close> is what \<open>Date.now()\<close> returns there.\<close>

definition new_PipelineResult :: "int \<Rightarrow> 'o PipelineResult" where
  "new_PipelineResult now =
     \<lparr> steps = [], outputs = [], startTime = now, endTime = None, success = False, error = None \<rparr>"

definition addStep :: "string \<Rightarrow> 'o \<Rightarrow> int \<Rightarrow> 'o PipelineResult \<Rightarrow> 'o PipelineResult" where
  "addStep name output duration r =
     r\<lparr> steps := steps r @ [\<lparr> step_name = name, step_duration = duration,
                              step_success = True, step_error = None \<rparr>],
        outputs := map_set name output (outputs r) \<rparr>"

text \<open>
  \<open>addError\<close> reads \<open>error.message\<close> while it builds the step record, before it changes
  the result.
\<close>

definition addError ::
  "string \<Rightarrow> error \<Rightarrow> int \<Rightarrow> 'o PipelineResult \<Rightarrow> 'o PipelineResult completion" where
  "addError name err duration r =
     (case read_message err of
        TypeError \<Rightarrow> TypeError
      | Normal msg \<Rightarrow>
          Normal (r\<lparr> steps := steps r @ [\<lparr> step_name = name, step_duration = duration,
                                           step_success = False, step_error = msg \<rparr>],
                     error := Some err \<rparr>))"

definition complete :: "bool \<Rightarrow> int \<Rightarrow> 'o PipelineResult \<Rightarrow> 'o PipelineResult" where
  "complete succ now r = r\<lparr> endTime := Some now, success := succ \<rparr>"

subsection \<open>Progress observers\<close>

text \<open>
  The arguments \<open>(step, total, message, status)\<close> of one progress notification. The message
  of the \<open>error\<close> notification is \<open>error.message\<close>, which may be \<open>undefined\<close> (\<open>None\<close>).
\<close>

record progress_event =
  ev_step :: int
  ev_total :: int
  ev_message :: "string option"
  ev_status :: string

text \<open>
  A progress callback is a function object. The array \<open>progressCallbacks\<close> holds references
  to function objects; \<open>indexOf\<close> compares references.
\<close>

type_synonym callback = nat

record PipelineEngine =
  progressCallbacks :: "callback list"

definition new_PipelineEngine :: PipelineEngine where
  "new_PipelineEngine = \<lparr> progressCallbacks = [] \<rparr>"

text \<open>The closure \<open>onProgress\<close> returns, run on the engine as it is when it is called.\<close>

definition unsubscribe :: "callback \<Rightarrow> PipelineEngine \<Rightarrow> PipelineEngine" where
  "unsubscribe cb eng =
     eng\<lparr> progressCallbacks := removeAtIndexOf cb (progressCallbacks eng) \<rparr>"

definition onProgress ::
  "callback \<Rightarrow> PipelineEngine \<Rightarrow> PipelineEngine \<times> (PipelineEngine \<Rightarrow> PipelineEngine)" where
  "onProgress cb eng = (eng\<lparr> progressCallbacks := progressCallbacks eng @ [cb] \<rparr>, unsubscribe cb)"

text \<open>
  What a call of a callback can do to the engine through its interface: register a callback
  with \<open>onProgress\<close>, or call the unsubscribe closure of a callback.
\<close>

datatype observer_op = Subscribe callback | Unsubscribe callback

fun apply_op :: "observer_op \<Rightarrow> PipelineEngine \<Rightarrow> PipelineEngine" where
  "apply_op (Subscribe cb) eng = fst (onProgress cb eng)"
| "apply_op (Unsubscribe cb) eng = unsubscribe cb eng"

definition apply_ops :: "observer_op list \<Rightarrow> PipelineEngine \<Rightarrow> PipelineEngine" where
  "apply_ops ops eng = foldl (\<lambda>e op. apply_op op e) eng ops"

text \<open>
  The function objects behind the references: what a call of the callback does for a given
  notification. It may change the observer list (the operations, in order) and then it
  returns (\<open>None\<close>) or throws (\<open>Some e\<close>). A callback does the same at every call with the
  same arguments, and it does not touch the registry.
\<close>

type_synonym observers = "callback \<Rightarrow> progress_event \<Rightarrow> observer_op list \<times> error option"

text \<open>One call of a callback: the callback, the notification, and what it threw.\<close>

type_synonym notification = "callback \<times> progress_event \<times> error option"

text \<open>
  \<open>this.progressCallbacks.forEach(cb => cb(step, total, message, status))\<close>. \<open>forEach\<close>
  reads the length of the array once, at the start, and then visits the indices below that
  length in order, on the array as it is at that moment: an index that the array no longer
  has is passed over, and what a callback appends is not visited. A callback that throws
  ends the \<open>forEach\<close> and the exception leaves \<open>_emitProgress\<close>.
  \<open>forEach_from F ev n k eng\<close> runs the \<open>n\<close> iterations from index \<open>k\<close> on. The result
  is the calls made, the engine afterwards and the exception thrown, if any.
\<close>

fun forEach_from ::
  "observers \<Rightarrow> progress_event \<Rightarrow> nat \<Rightarrow> nat \<Rightarrow> PipelineEngine \<Rightarrow>
     notification list \<times> PipelineEngine \<times> error option" where
  "forEach_from F ev 0 k eng = ([], eng, None)"
| "forEach_from F ev (Suc n) k eng =
     (if k < length (progressCallbacks eng) then
        (let cb = progressCallbacks eng ! k in
         case F cb ev of
           (ops, Some e) \<Rightarrow> ([(cb, ev, Some e)], apply_ops ops eng, Some e)
         | (ops, None) \<Rightarrow>
             (case forEach_from F ev n (Suc k) (apply_ops ops eng) of
                (called, eng', thrown) \<Rightarrow> ((cb, ev, None) # called, eng', thrown)))
      else forEach_from F ev n (Suc k) eng)"

definition emitProgress ::
  "observers \<Rightarrow> PipelineEngine \<Rightarrow> int \<Rightarrow> int \<Rightarrow> string option \<Rightarrow> string \<Rightarrow>
     notification list \<times> PipelineEngine \<times> error option" where
  "emitProgress F eng step totalSteps msg status =
     forEach_from F
       \<lparr> ev_step = step, ev_total = totalSteps, ev_message = msg, ev_status = status \<rparr>
       (length (progressCallbacks eng)) 0 eng"

subsection \<open>runWithFallback\<close>

text \<open>One call \<open>m.analyze(input, context)\<close>.\<close>

type_synonym ('i, 'o) analyze_call = "('i, 'o) model \<times> 'i \<times> 'o ctx"

text \<open>
  The \<open>for\<close> loop over the fallbacks: the calls made, and the output of the first fallback
  that succeeds (\<open>None\<close> when the loop ends without a \<open>return\<close>).
\<close>

fun try_fallbacks ::
  "('i, 'o) model list \<Rightarrow> 'i \<Rightarrow> 'o ctx \<Rightarrow> ('i, 'o) analyze_call list \<times> 'o option" where
  "try_fallbacks [] input context = ([], None)"
| "try_fallbacks (fallback # rest) input context =
     (case analyze fallback input context of
        Inr out \<Rightarrow> ([(fallback, input, context)], Some out)
      | Inl fallbackError \<Rightarrow>
          (case try_fallbacks rest input context of
             (calls, res) \<Rightarrow> ((fallback, input, context) # calls, res)))"

text \<open>
  \<open>runWithFallback\<close>: the \<open>analyze\<close> calls it makes, in order, and its outcome
  (\<open>Inr\<close> the value it resolves with, \<open>Inl\<close> the error it rejects with).
\<close>

definition runWithFallback ::
  "('i, 'o) registry \<Rightarrow> string \<Rightarrow> 'i \<Rightarrow> 'o ctx \<Rightarrow> ('i, 'o) analyze_call list \<times> (error + 'o)" where
  "runWithFallback reg modelId input context =
     (case get reg modelId of
        None \<Rightarrow> ([], Inl (Error (''Model not found: '' @ modelId)))
      | Some m \<Rightarrow>
          (case analyze m input context of
             Inr out \<Rightarrow> ([(m, input, context)], Inr out)
           | Inl err \<Rightarrow>
               (case try_fallbacks (getFallbacks reg modelId) input context of
                  (calls, Some out) \<Rightarrow> ((m, input, context) # calls, Inr out)
                | (calls, None) \<Rightarrow> ((m, input, context) # calls, Inl err))))"

subsection \<open>executeImagePipeline\<close>

text \<open>
  How the \<open>try\<close> block ends: it returns the completed result, or an exception is thrown
  while the result object is in the given state and \<open>Date.now()\<close> has been read the given
  number of times.
\<close>

datatype 'o attempt = Returned "'o PipelineResult" | Thrown error "'o PipelineResult" nat

text \<open>
  The \<open>try\<close> block. \<open>clock k\<close> is what the \<open>k\<close>-th \<open>Date.now()\<close> of the run returns
  (counted from 0, the one in the constructor of \<open>PipelineResult\<close>). The result is the
  \<open>analyze\<close> calls made, the callback calls made, the engine afterwards, and how the block
  ends.
\<close>

definition try_block ::
  "observers \<Rightarrow> PipelineEngine \<Rightarrow> ('i, 'o) registry \<Rightarrow> (nat \<Rightarrow> int) \<Rightarrow> 'i \<Rightarrow>
     ('i, 'o) analyze_call list \<times> notification list \<times> PipelineEngine \<times> 'o attempt" where
  "try_block F eng reg clock img =
     (let result = new_PipelineResult (clock 0) in
      case emitProgress F eng 1 2 (Some ''Scanning image...'') ''loading'' of
        (n1, eng1, Some e) \<Rightarrow> ([], n1, eng1, Thrown e result 1)
      | (n1, eng1, None) \<Rightarrow>
          (let stepStart = clock 1 in
           case runWithFallback reg ''gemini-vision'' img [] of
             (c1, Inl e) \<Rightarrow> (c1, n1, eng1, Thrown e result 2)
           | (c1, Inr detections) \<Rightarrow>
               (let result1 = addStep ''vision'' detections (clock 2 - stepStart) result in
                case emitProgress F eng1 2 2 (Some ''Analyzing safety...'') ''loading'' of
                  (n2, eng2, Some e) \<Rightarrow> (c1, n1 @ n2, eng2, Thrown e result1 3)
                | (n2, eng2, None) \<Rightarrow>
                    (let step2Start = clock 3 in
                     case runWithFallback reg ''gemini-reasoning'' img
                            [(''detections'', detections)] of
                       (c2, Inl e) \<Rightarrow> (c1 @ c2, n1 @ n2, eng2, Thrown e result1 4)
                     | (c2, Inr report) \<Rightarrow>
                         (let result2 = addStep ''reasoning'' report (clock 4 - step2Start) result1 in
                          case emitProgress F eng2 2 2 (Some ''Analysis complete'') ''success'' of
                            (n3, eng3, Some e) \<Rightarrow>
                              (c1 @ c2, n1 @ n2 @ n3, eng3, Thrown e result2 5)
                          | (n3, eng3, None) \<Rightarrow>
                              (c1 @ c2, n1 @ n2 @ n3, eng3,
                               Returned (complete True (clock 5) result2)))))))"

text \<open>
  How the promise that \<open>executeImagePipeline\<close> returns settles: it resolves with a
  \<open>PipelineResult\<close>, it rejects with a value thrown inside the \<open>catch\<close> clause by a
  callback, or it rejects with the \<open>TypeError\<close> of reading \<open>error.message\<close> there.
\<close>

datatype 'o settled = Resolved "'o PipelineResult" | Rejected error | RejectedTypeError

text \<open>
  One run of \<open>executeImagePipeline\<close>: the \<open>analyze\<close> calls and the callback calls it made,
  in order, the engine afterwards, the value the \<open>catch\<close> clause caught (\<open>None\<close> when the
  \<open>try\<close> block returned), and how the promise settles.
\<close>

record ('i, 'o) pipeline_run =
  run_calls :: "('i, 'o) analyze_call list"
  run_notified :: "notification list"
  run_engine :: PipelineEngine
  run_caught :: "error option"
  run_settled :: "'o settled"

text \<open>
  \<open>executeImagePipeline\<close>: the \<open>try\<close> block and the \<open>catch\<close> clause. The \<open>catch\<close> clause
  evaluates \<open>error.message\<close> for the notification first, then notifies, then sets
  \<open>result.error\<close> and completes the result.
\<close>

definition executeImagePipeline ::
  "observers \<Rightarrow> PipelineEngine \<Rightarrow> ('i, 'o) registry \<Rightarrow> (nat \<Rightarrow> int) \<Rightarrow> 'i \<Rightarrow>
     ('i, 'o) pipeline_run" where
  "executeImagePipeline F eng reg clock img =
     (case try_block F eng reg clock img of
        (calls, notified, eng1, Returned r) \<Rightarrow>
          \<lparr> run_calls = calls, run_notified = notified, run_engine = eng1,
            run_caught = None, run_settled = Resolved r \<rparr>
      | (calls, notified, eng1, Thrown err result reads) \<Rightarrow>
          (case read_message err of
             TypeError \<Rightarrow>
               \<lparr> run_calls = calls, run_notified = notified, run_engine = eng1,
                 run_caught = Some err, run_settled = RejectedTypeError \<rparr>
           | Normal msg \<Rightarrow>
               (case emitProgress F eng1 0 2 msg ''error'' of
                  (n, eng2, Some e) \<Rightarrow>
                    \<lparr> run_calls = calls, run_notified = notified @ n, run_engine = eng2,
                      run_caught = Some err, run_settled = Rejected e \<rparr>
                | (n, eng2, None) \<Rightarrow>
                    \<lparr> run_calls = calls, run_notified = notified @ n, run_engine = eng2,
                      run_caught = Some err,
                      run_settled =
                        Resolved (complete False (clock reads) (result\<lparr> error := Some err \<rparr>)) \<rparr>)))"

section \<open>Auxiliary definitions for the statements\<close>

text \<open>
  The element \<open>getByCapability\<close> builds for an entry \<open>[id, registration]\<close> of the models map.
\<close>

definition to_match :: "string \<times> ('i, 'o) registration \<Rightarrow> ('i, 'o) match" where
  "to_match e = \<lparr> match_id = fst e, match_model = model (snd e), match_priority = priority (snd e) \<rparr>"

text \<open>
  A descriptor matches a filter when each filter field is unset or equals the
  descriptor's field. Unset is \<open>undefined\<close> or the empty string: the source tests
  \<open>!type\<close>, which holds for both.
\<close>

definition capability_match :: "capability_filter \<Rightarrow> capabilities \<Rightarrow> bool" where
  "capability_match flt caps =
     ((flt_type flt = None \<or> flt_type flt = Some [] \<or> flt_type flt = Some (cap_type caps))
      \<and> (flt_role flt = None \<or> flt_role flt = Some [] \<or> flt_role flt = Some (cap_role caps)))"

text \<open>A sequence of \<open>register(id, model, options)\<close> calls, run in order.\<close>

definition register_all ::
  "(string \<times> ('i, 'o) model \<times> options) list \<Rightarrow> ('i, 'o) registry \<Rightarrow> ('i, 'o) registry" where
  "register_all calls r = foldl (\<lambda>r' (ident, m, opts). register ident m opts r') r calls"

text \<open>The failed and the successful step records of a result.\<close>

definition failed_steps :: "'o PipelineResult \<Rightarrow> step_record list" where
  "failed_steps r = filter (\<lambda>s. \<not> step_success s) (steps r)"

definition successful_steps :: "'o PipelineResult \<Rightarrow> step_record list" where
  "successful_steps r = filter step_success (steps r)"

text \<open>
  The outputs of the steps that ran and succeeded are in the result: that of the vision
  step when the first notification did not throw and the step succeeded, and that of the
  reasoning step when, after that, the second notification did not throw and the step
  succeeded.
\<close>

definition keeps_outputs ::
  "observers \<Rightarrow> PipelineEngine \<Rightarrow> ('i, 'o) registry \<Rightarrow> 'i \<Rightarrow> 'o PipelineResult \<Rightarrow> bool" where
  "keeps_outputs F eng reg img r =
     (\<forall>n1 eng1 d.
        emitProgress F eng 1 2 (Some ''Scanning image...'') ''loading'' = (n1, eng1, None)
        \<and> snd (runWithFallback reg ''gemini-vision'' img []) = Inr d \<longrightarrow>
        map_get (outputs r) ''vision'' = Some d
        \<and> (\<forall>n2 eng2 report.
              emitProgress F eng1 2 2 (Some ''Analyzing safety...'') ''loading'' = (n2, eng2, None)
              \<and> snd (runWithFallback reg ''gemini-reasoning'' img [(''detections'', d)]) = Inr report \<longrightarrow>
              map_get (outputs r) ''reasoning'' = Some report))"

subsection \<open>Example values for the concrete evaluations\<close>

definition succeed_with :: "'o \<Rightarrow> 'i \<Rightarrow> 'o ctx \<Rightarrow> error + 'o" where
  "succeed_with out inp c = Inr out"

definition fail_with :: "error \<Rightarrow> 'i \<Rightarrow> 'o ctx \<Rightarrow> error + 'o" where
  "fail_with e inp c = Inl e"

definition example_model ::
  "string \<Rightarrow> string \<Rightarrow> string \<Rightarrow> ('i \<Rightarrow> 'o ctx \<Rightarrow> error + 'o) \<Rightarrow> ('i, 'o) model" where
  "example_model nm ty ro an =
     \<lparr> constructor_name = nm,
       getCapabilities = \<lparr> cap_type = ty, cap_role = ro, cap_priority = 1, cap_supports = [] \<rparr>,
       analyze = an \<rparr>"

definition no_options :: options where
  "no_options = \<lparr> opt_priority = None, opt_fallbackFor = None, opt_enabled = None \<rparr>"

definition fallback_options :: "string \<Rightarrow> options" where
  "fallback_options primary = \<lparr> opt_priority = None, opt_fallbackFor = Some primary, opt_enabled = None \<rparr>"

definition example_detector :: "(nat, nat) model" where
  "example_detector = example_model ''Detector'' ''image'' ''detection'' (succeed_with 7)"

definition example_registry :: "(nat, nat) registry" where
  "example_registry =
     register ''d'' example_detector no_options
       (register ''c'' example_detector (no_options\<lparr> opt_enabled := Some False \<rparr>)
         (register ''b'' example_detector (no_options\<lparr> opt_priority := Some 5 \<rparr>)
           (register ''a'' example_detector no_options new_ModelRegistry)))"

definition image_filter :: capability_filter where
  "image_filter = \<lparr> flt_type = Some ''image'', flt_role = None \<rparr>"

definition failing_model :: "string \<Rightarrow> string \<Rightarrow> (nat, nat) model" where
  "failing_model nm msg = example_model nm ''image'' ''analysis'' (fail_with (Error msg))"

definition succeeding_model :: "string \<Rightarrow> nat \<Rightarrow> (nat, nat) model" where
  "succeeding_model nm out = example_model nm ''image'' ''analysis'' (succeed_with out)"

definition fallback_registry :: "(nat, nat) registry" where
  "fallback_registry =
     register ''f2'' (succeeding_model ''F2'' 9) (fallback_options ''p'')
       (register ''f1'' (failing_model ''F1'' ''f1 down'') (fallback_options ''p'')
         (register ''p'' (failing_model ''P'' ''p down'') no_options new_ModelRegistry))"

definition failing_registry :: "(nat, nat) registry" where
  "failing_registry =
     register ''f2'' (failing_model ''F2'' ''f2 down'') (fallback_options ''p'')
       (register ''f1'' (failing_model ''F1'' ''f1 down'') (fallback_options ''p'')
         (register ''p'' (failing_model ''P'' ''p down'') no_options new_ModelRegistry))"

definition half_failing_registry :: "(nat, nat) registry" where
  "half_failing_registry =
     register ''gemini-reasoning'' (failing_model ''GeminiReasoningModel'' ''API Error'') no_options
       (register ''gemini-vision'' (succeeding_model ''GeminiVisionModel'' 7) no_options
          new_ModelRegistry)"

definition working_registry :: "(nat, nat) registry" where
  "working_registry =
     register ''gemini-reasoning'' (succeeding_model ''GeminiReasoningModel'' 8) no_options
       (register ''gemini-vision'' (succeeding_model ''GeminiVisionModel'' 7) no_options
          new_ModelRegistry)"

text \<open>
  Observers: one that never throws and changes nothing; one where callback 1 throws at
  every call; one where callback 2 does; one where every callback throws on the \<open>error\<close>
  notification only; one where callback 1 calls its own unsubscribe closure; and one where every callback
  throws on the second \<open>loading\<close> notification only.
\<close>

definition silent :: observers where
  "silent cb ev = ([], None)"

definition first_raises :: observers where
  "first_raises cb ev = ([], if cb = 1 then Some (Error ''observer failed'') else None)"

definition second_raises :: observers where
  "second_raises cb ev = ([], if cb = 2 then Some (Error ''observer failed'') else None)"

definition raising_on_error :: observers where
  "raising_on_error cb ev =
     ([], if ev_status ev = ''error'' then Some (Error ''observer failed'') else None)"

definition self_unsubscribing :: observers where
  "self_unsubscribing cb ev = (if cb = 1 then [Unsubscribe 1] else [], None)"

definition second_notification_raises :: observers where
  "second_notification_raises cb ev =
     ([], if ev_step ev = 2 \<and> ev_status ev = ''loading'' then Some (Error ''observer failed'')
          else None)"

definition loading_event :: progress_event where
  "loading_event =
     \<lparr> ev_step = 1, ev_total = 2, ev_message = Some ''Scanning image...'', ev_status = ''loading'' \<rparr>"

section \<open>Container lemmas\<close>

lemma indexOf_ge: "- 1 \<le> indexOf xs x"
  by (induction xs) (auto simp: Let_def)

lemma indexOf_notin: "x \<notin> set xs \<Longrightarrow> indexOf xs x = - 1"
  by (induction xs) (auto simp: Let_def)

lemma indexOf_in: "x \<in> set xs \<Longrightarrow> 0 \<le> indexOf xs x"
  by (induction xs) (auto simp: Let_def)

lemma removeAtIndexOf_Nil [simp]: "removeAtIndexOf x [] = []"
  by (simp add: removeAtIndexOf_def)

lemma removeAtIndexOf_Cons [simp]:
  "removeAtIndexOf x (y # ys) = (if y = x then ys else y # removeAtIndexOf x ys)"
proof (cases "y = x")
  case True
  then show ?thesis by (simp add: removeAtIndexOf_def splice1_def)
next
  case False
  show ?thesis
  proof (cases "x \<in> set ys")
    case True
    then have "0 \<le> indexOf ys x" by (rule indexOf_in)
    then have "nat (indexOf ys x + 1) = Suc (nat (indexOf ys x))" by simp
    with False \<open>0 \<le> indexOf ys x\<close> show ?thesis
      by (simp add: removeAtIndexOf_def splice1_def Let_def)
  next
    case notin: False
    then have "indexOf ys x = - 1" by (rule indexOf_notin)
    with False show ?thesis
      by (simp add: removeAtIndexOf_def Let_def)
  qed
qed

lemma removeAtIndexOf_remove1: "removeAtIndexOf x xs = remove1 x xs"
  by (induction xs) auto

section \<open>Registry lemmas\<close>

lemma map_get_map_set: "map_get (map_set k v kvs) k' = (if k' = k then Some v else map_get kvs k')"
  by (induction kvs) auto

lemma map_get_map_delete: "map_get (map_delete k kvs) k' = (if k' = k then None else map_get kvs k')"
  by (induction kvs) auto

text \<open>The keys of a \<open>Map\<close> are distinct, and \<open>set\<close> and \<open>delete\<close> keep them so.\<close>

lemma keys_map_set: "fst ` set (map_set k v kvs) = insert k (fst ` set kvs)"
  by (induction k v kvs rule: map_set.induct) (simp_all add: insert_commute)

lemma distinct_keys_map_set:
  "distinct (map fst kvs) \<Longrightarrow> distinct (map fst (map_set k v kvs))"
  by (induction k v kvs rule: map_set.induct) (auto simp: keys_map_set)

lemma keys_map_delete: "fst ` set (map_delete k kvs) = fst ` set kvs - {k}"
  by (induction k kvs rule: map_delete.induct) (simp_all add: insert_Diff_if)

lemma distinct_keys_map_delete:
  "distinct (map fst kvs) \<Longrightarrow> distinct (map fst (map_delete k kvs))"
  by (induction k kvs rule: map_delete.induct) (auto simp: keys_map_delete)

lemma models_register: "models (register ident m opts r) = map_set ident (make_registration m opts) (models r)"
  by (simp add: register_def Let_def split: option.splits)

lemma chain_of_register:
  "chain_of (register ident m opts r) p =
     chain_of r p @ (if fallbackFor_or_null (opt_fallbackFor opts) = Some p then [ident] else [])"
  by (auto simp: register_def chain_of_def Let_def push_fallback_def make_registration_def split: option.splits)

lemma chain_of_register_all:
  "chain_of (register_all calls r) p =
     chain_of r p @ map fst (filter (\<lambda>(ident, m, opts). fallbackFor_or_null (opt_fallbackFor opts) = Some p) calls)"
  unfolding register_all_def
  by (induction calls arbitrary: r) (auto simp: chain_of_register)

lemma priority_or_1_nonzero: "priority_or_1 p \<noteq> 0"
  by (simp add: priority_or_1_def split: option.splits)

lemma make_registration_priority_0:
  "make_registration m (opts\<lparr> opt_priority := Some 0 \<rparr>) = make_registration m (opts\<lparr> opt_priority := None \<rparr>)"
  "make_registration m (opts\<lparr> opt_priority := Some 0 \<rparr>) = make_registration m (opts\<lparr> opt_priority := Some 1 \<rparr>)"
  by (simp_all add: make_registration_def priority_or_1_def)

lemma register_cong_registration:
  "make_registration m opts = make_registration m opts' \<Longrightarrow> register ident m opts r = register ident m opts' r"
  by (simp add: register_def)

lemma field_match_iff: "field_match w a \<longleftrightarrow> w = None \<or> w = Some [] \<or> w = Some a"
  by (auto simp: field_match_def split: option.splits)

lemma collect_matches_eq:
  "collect_matches flt kvs =
     map to_match (filter (\<lambda>e. enabled (snd e) \<and> capability_match flt (getCapabilities (model (snd e)))) kvs)"
  by (induction flt kvs rule: collect_matches.induct)
     (auto simp: to_match_def capability_match_def field_match_iff Let_def)

lemma mset_insert_by: "mset (insert_by cmp x ys) = add_mset x (mset ys)"
  by (induction ys) auto

lemma mset_array_sort: "mset (array_sort cmp xs) = mset xs"
  by (induction xs) (auto simp: array_sort_def mset_insert_by)

lemma set_insert_by: "set (insert_by cmp x ys) = insert x (set ys)"
  by (induction ys) auto

lemma sorted_insert_by:
  "sorted_wrt (\<lambda>a b. key b \<le> key a) ys \<Longrightarrow>
   sorted_wrt (\<lambda>a b. key b \<le> key a) (insert_by (\<lambda>a b. key b - key a) x ys)"
  for key :: "'a \<Rightarrow> int"
  by (induction ys) (auto simp: set_insert_by)

lemma sorted_array_sort:
  "sorted_wrt (\<lambda>a b. key b \<le> key a) (array_sort (\<lambda>a b. key b - key a) xs)"
  for key :: "'a \<Rightarrow> int"
  by (induction xs) (auto simp: array_sort_def sorted_insert_by)

lemma filter_insert_by:
  "filter (\<lambda>e. key e = p) (insert_by (\<lambda>a b. key b - key a) x ys) =
     (if key x = p then x # filter (\<lambda>e. key e = p) ys else filter (\<lambda>e. key e = p) ys)"
  for key :: "'a \<Rightarrow> int"
  by (induction ys) auto

lemma filter_array_sort:
  "filter (\<lambda>e. key e = p) (array_sort (\<lambda>a b. key b - key a) xs) = filter (\<lambda>e. key e = p) xs"
  for key :: "'a \<Rightarrow> int"
  by (induction xs) (auto simp: array_sort_def filter_insert_by)

lemma distinct_keys_register:
  "distinct (map fst (models r)) \<Longrightarrow> distinct (map fst (models (register ident m opts r)))"
  by (simp add: models_register distinct_keys_map_set)

lemma distinct_keys_unregister:
  "distinct (map fst (models r)) \<Longrightarrow> distinct (map fst (models (unregister ident r)))"
  by (simp add: unregister_def distinct_keys_map_delete)

text \<open>
  What \<open>unregister\<close> does: the registration is gone, other registrations stay, and each
  chain loses its first occurrence of the id. The id is out of a chain afterwards exactly
  when it stood there at most once, and unregistering an id that has no registration and
  stands in no chain changes nothing.
\<close>

lemma get_unregister: "get (unregister ident r) ident = None"
  by (simp add: get_def unregister_def map_get_map_delete)

lemma get_unregister_other: "f \<noteq> ident \<Longrightarrow> get (unregister ident r) f = get r f"
  by (simp add: get_def unregister_def map_get_map_delete)

lemma chain_of_unregister: "chain_of (unregister ident r) p = remove1 ident (chain_of r p)"
  by (simp add: chain_of_def unregister_def removeAtIndexOf_remove1 split: option.splits)

lemma in_set_iff_count: "x \<in> set xs \<longleftrightarrow> 1 \<le> count_list xs x"
  by (induction xs) auto

lemma in_remove1_iff_count: "x \<in> set (remove1 x xs) \<longleftrightarrow> 2 \<le> count_list xs x"
  by (induction xs) (auto simp: in_set_iff_count)

lemma chain_of_new [simp]: "chain_of new_ModelRegistry p = []"
  by (simp add: chain_of_def new_ModelRegistry_def)

lemma map_filter_cong_set:
  "(\<And>x. x \<in> set xs \<Longrightarrow> f x = g x) \<Longrightarrow> List.map_filter f xs = List.map_filter g xs"
proof (induction xs)
  case Nil
  show ?case by simp
next
  case (Cons a xs)
  have "f a = g a" by (rule Cons.prems) simp
  moreover have "List.map_filter f xs = List.map_filter g xs"
    by (rule Cons.IH) (simp add: Cons.prems)
  ultimately show ?case by (simp split: option.splits)
qed

lemma models_new [simp]: "models new_ModelRegistry = []"
  by (simp add: new_ModelRegistry_def)

lemma unregister_purges_iff:
  "ident \<in> set (chain_of (unregister ident r) p) \<longleftrightarrow> 2 \<le> count_list (chain_of r p) ident"
  by (simp add: chain_of_unregister in_remove1_iff_count)

lemma map_delete_absent: "map_get kvs k = None \<Longrightarrow> map_delete k kvs = kvs"
  by (induction kvs) (auto split: if_splits)

lemma unregister_absent:
  assumes "map_get (models r) ident = None" and "\<And>p. ident \<notin> set (chain_of r p)"
  shows "unregister ident r = r"
proof -
  have "(\<lambda>key. map_option (removeAtIndexOf ident) (fallbacks r key)) = fallbacks r"
  proof
    fix key
    show "map_option (removeAtIndexOf ident) (fallbacks r key) = fallbacks r key"
      using assms(2)[of key]
      by (cases "fallbacks r key") (simp_all add: chain_of_def removeAtIndexOf_remove1 remove1_idem)
  qed
  then show ?thesis
    by (simp add: unregister_def map_delete_absent[OF assms(1)])
qed

lemma getFallbacks_eq: "getFallbacks r p = List.map_filter (get r) (chain_of r p)"
  by (simp add: getFallbacks_def chain_of_def List.map_filter_def filter_map o_def)

section \<open>Engine lemmas\<close>

lemma try_fallbacks_all_fail:
  "\<forall>g \<in> set fs. isl (analyze g inp c) \<Longrightarrow>
   try_fallbacks fs inp c = (map (\<lambda>g. (g, inp, c)) fs, None)"
  by (induction fs) (auto split: sum.splits)

lemma try_fallbacks_first_success:
  "\<forall>g \<in> set pre. isl (analyze g inp c) \<Longrightarrow> analyze f inp c = Inr out \<Longrightarrow>
   try_fallbacks (pre @ f # post) inp c = (map (\<lambda>g. (g, inp, c)) (pre @ [f]), Some out)"
  by (induction pre) (auto split: sum.splits)

lemma get_fallback_registry: "get fallback_registry ''p'' = Some (failing_model ''P'' ''p down'')"
  by (simp add: fallback_registry_def get_def models_register map_get_map_set make_registration_def
      no_options_def fallback_options_def enabled_not_false_def)

lemma getFallbacks_fallback_registry:
  "getFallbacks fallback_registry ''p'' = [failing_model ''F1'' ''f1 down'', succeeding_model ''F2'' 9]"
  by (simp add: getFallbacks_eq fallback_registry_def chain_of_register get_def models_register
      map_get_map_set make_registration_def
      no_options_def fallback_options_def enabled_not_false_def fallbackFor_or_null_def)

lemma analyze_failing_model [simp]: "analyze (failing_model nm msg) inp c = Inl (Error msg)"
  by (simp add: failing_model_def example_model_def fail_with_def)

lemma analyze_succeeding_model [simp]: "analyze (succeeding_model nm out) inp c = Inr out"
  by (simp add: succeeding_model_def example_model_def succeed_with_def)

lemma get_failing_registry: "get failing_registry ''p'' = Some (failing_model ''P'' ''p down'')"
  by (simp add: failing_registry_def get_def models_register map_get_map_set make_registration_def
      no_options_def fallback_options_def enabled_not_false_def)

lemma getFallbacks_failing_registry:
  "getFallbacks failing_registry ''p'' = [failing_model ''F1'' ''f1 down'', failing_model ''F2'' ''f2 down'']"
  by (simp add: getFallbacks_eq failing_registry_def chain_of_register get_def models_register
      map_get_map_set make_registration_def
      no_options_def fallback_options_def enabled_not_false_def fallbackFor_or_null_def)

lemma get_half_failing:
  "get half_failing_registry ''gemini-vision'' = Some (succeeding_model ''GeminiVisionModel'' 7)"
  "get half_failing_registry ''gemini-reasoning'' = Some (failing_model ''GeminiReasoningModel'' ''API Error'')"
  "getFallbacks half_failing_registry ''gemini-reasoning'' = []"
  by (simp_all add: half_failing_registry_def get_def models_register map_get_map_set
      make_registration_def no_options_def enabled_not_false_def getFallbacks_eq chain_of_register
      fallbackFor_or_null_def)

lemma run_half_failing:
  "runWithFallback half_failing_registry ''gemini-vision'' 0 [] =
     ([(succeeding_model ''GeminiVisionModel'' 7, 0, [])], Inr 7)"
  "runWithFallback half_failing_registry ''gemini-reasoning'' 0 [(''detections'', 7)] =
     ([(failing_model ''GeminiReasoningModel'' ''API Error'', 0, [(''detections'', 7)])],
      Inl (Error ''API Error''))"
  by (simp_all add: runWithFallback_def get_half_failing)

lemma run_working:
  "runWithFallback working_registry ''gemini-vision'' 0 [] =
     ([(succeeding_model ''GeminiVisionModel'' 7, 0, [])], Inr 7)"
  by (simp add: runWithFallback_def working_registry_def get_def models_register map_get_map_set
      make_registration_def no_options_def enabled_not_false_def)

lemma remove1_fixed_iff: "remove1 x ys = ys \<longleftrightarrow> x \<notin> set ys"
proof
  assume eq: "remove1 x ys = ys"
  show "x \<notin> set ys"
  proof
    assume mem: "x \<in> set ys"
    then have "0 < length ys"
      by (rule length_pos_if_in_set)
    with mem have "length (remove1 x ys) < length ys"
      by (simp add: length_remove1)
    with eq show False by simp
  qed
next
  assume "x \<notin> set ys"
  then show "remove1 x ys = ys" by (rule remove1_idem)
qed

lemma remove1_twice_iff: "remove1 x (remove1 x xs) = remove1 x xs \<longleftrightarrow> count_list xs x \<le> 1"
proof (induction xs)
  case Nil
  show ?case by simp
next
  case (Cons y ys)
  show ?case
  proof (cases "y = x")
    case True
    then show ?thesis by (simp add: count_list_0_iff remove1_fixed_iff)
  next
    case False
    with Cons show ?thesis by simp
  qed
qed

lemma unsubscribe_eq:
  "unsubscribe cb eng = eng\<lparr> progressCallbacks := remove1 cb (progressCallbacks eng) \<rparr>"
  by (simp add: unsubscribe_def removeAtIndexOf_remove1)

lemma engine_update_eq_iff:
  "eng\<lparr> progressCallbacks := xs \<rparr> = eng\<lparr> progressCallbacks := ys \<rparr> \<longleftrightarrow> xs = ys"
  by (cases eng) simp

lemma apply_ops_Nil [simp]: "apply_ops [] eng = eng"
  by (simp add: apply_ops_def)

text \<open>
  Observers that leave the observer list alone are visited one after the other, as the
  list stands.
\<close>

lemma forEach_from_plain:
  "\<forall>c \<in> set (drop k (progressCallbacks eng)). F c ev = ([], None) \<Longrightarrow>
   length (progressCallbacks eng) \<le> k + n \<Longrightarrow>
   forEach_from F ev n k eng = (map (\<lambda>c. (c, ev, None)) (drop k (progressCallbacks eng)), eng, None)"
proof (induction n arbitrary: k)
  case 0
  then show ?case by simp
next
  case (Suc n)
  show ?case
  proof (cases "k < length (progressCallbacks eng)")
    case True
    then have d: "drop k (progressCallbacks eng) =
        progressCallbacks eng ! k # drop (Suc k) (progressCallbacks eng)"
      by (simp add: Cons_nth_drop_Suc)
    with Suc.prems(1) have q: "F (progressCallbacks eng ! k) ev = ([], None)"
      and rest: "\<forall>c \<in> set (drop (Suc k) (progressCallbacks eng)). F c ev = ([], None)"
      by simp_all
    from Suc.prems(2) have "length (progressCallbacks eng) \<le> Suc k + n" by simp
    with rest have "forEach_from F ev n (Suc k) eng =
        (map (\<lambda>c. (c, ev, None)) (drop (Suc k) (progressCallbacks eng)), eng, None)"
      by (rule Suc.IH)
    with True q d show ?thesis by simp
  next
    case False
    with Suc.prems(2) have "length (progressCallbacks eng) \<le> Suc k + n" by simp
    moreover from False have "drop (Suc k) (progressCallbacks eng) = []" by simp
    ultimately have "forEach_from F ev n (Suc k) eng = ([], eng, None)"
      using Suc.IH [of "Suc k"] by simp
    with False show ?thesis by simp
  qed
qed

lemma forEach_from_raise:
  "progressCallbacks eng = pre @ cb # post \<Longrightarrow>
   \<forall>c \<in> set (drop k pre). F c ev = ([], None) \<Longrightarrow> F cb ev = (ops, Some e) \<Longrightarrow>
   k \<le> length pre \<Longrightarrow> length pre < k + n \<Longrightarrow>
   forEach_from F ev n k eng =
     (map (\<lambda>c. (c, ev, None)) (drop k pre) @ [(cb, ev, Some e)], apply_ops ops eng, Some e)"
proof (induction n arbitrary: k)
  case 0
  then show ?case by simp
next
  case (Suc n)
  show ?case
  proof (cases "k = length pre")
    case True
    with Suc.prems(1) have "progressCallbacks eng ! k = cb" and "k < length (progressCallbacks eng)"
      by simp_all
    with True Suc.prems(3) show ?thesis by simp
  next
    case False
    with Suc.prems(4) have lt: "k < length pre" by simp
    then have d: "drop k pre = pre ! k # drop (Suc k) pre"
      by (simp add: Cons_nth_drop_Suc)
    from lt Suc.prems(1) have nth: "progressCallbacks eng ! k = pre ! k"
      and inb: "k < length (progressCallbacks eng)"
      by (simp_all add: nth_append)
    from d Suc.prems(2) have q: "F (pre ! k) ev = ([], None)"
      and rest: "\<forall>c \<in> set (drop (Suc k) pre). F c ev = ([], None)"
      by simp_all
    from lt have "Suc k \<le> length pre" by simp
    moreover from Suc.prems(5) have "length pre < Suc k + n" by simp
    ultimately have "forEach_from F ev n (Suc k) eng =
        (map (\<lambda>c. (c, ev, None)) (drop (Suc k) pre) @ [(cb, ev, Some e)], apply_ops ops eng, Some e)"
      using Suc.IH [OF Suc.prems(1) rest Suc.prems(3)] by simp
    with inb nth q d show ?thesis by simp
  qed
qed

text \<open>An exception that leaves the \<open>forEach\<close> is the one a recorded call threw.\<close>

lemma forEach_from_thrown:
  "forEach_from F ev n k eng = (ns, eng', Some e) \<Longrightarrow> \<exists>cb. (cb, ev, Some e) \<in> set ns"
proof (induction n arbitrary: k eng ns)
  case 0
  then show ?case by simp
next
  case (Suc n)
  show ?case
  proof (cases "k < length (progressCallbacks eng)")
    case False
    with Suc.prems have "forEach_from F ev n (Suc k) eng = (ns, eng', Some e)" by simp
    then show ?thesis by (rule Suc.IH)
  next
    case True
    obtain ops t where f: "F (progressCallbacks eng ! k) ev = (ops, t)"
      by (cases "F (progressCallbacks eng ! k) ev")
    show ?thesis
    proof (cases t)
      case (Some e1)
      with True f Suc.prems show ?thesis by auto
    next
      case None
      obtain ms eng2 t2 where r: "forEach_from F ev n (Suc k) (apply_ops ops eng) = (ms, eng2, t2)"
        by (cases "forEach_from F ev n (Suc k) (apply_ops ops eng)")
      with True f None Suc.prems have "t2 = Some e" and "eng2 = eng'"
        and ns: "ns = (progressCallbacks eng ! k, ev, None) # ms"
        by simp_all
      with r have "forEach_from F ev n (Suc k) (apply_ops ops eng) = (ms, eng', Some e)" by simp
      then have "\<exists>cb. (cb, ev, Some e) \<in> set ms" by (rule Suc.IH)
      with ns show ?thesis by auto
    qed
  qed
qed

lemma emitProgress_thrown:
  "emitProgress F eng s t m st = (ns, eng', Some e) \<Longrightarrow>
   \<exists>cb. (cb, \<lparr> ev_step = s, ev_total = t, ev_message = m, ev_status = st \<rparr>, Some e) \<in> set ns"
  unfolding emitProgress_def by (rule forEach_from_thrown)

lemma emitProgress_no_observers [simp]:
  "emitProgress F new_PipelineEngine s t m st = ([], new_PipelineEngine, None)"
  by (simp add: emitProgress_def new_PipelineEngine_def)

lemma read_message_TypeError: "read_message e = TypeError \<longleftrightarrow> e = Nullish"
  by (cases e) simp_all

lemma try_block_first_emit_raises:
  "emitProgress F eng 1 2 (Some ''Scanning image...'') ''loading'' = (n1, eng1, Some e) \<Longrightarrow>
   try_block F eng reg clock img = ([], n1, eng1, Thrown e (new_PipelineResult (clock 0)) 1)"
  by (simp add: try_block_def)

lemma try_block_Returned:
  assumes "try_block F eng reg clock img = (cs, ns, eng', Returned r)"
  shows "startTime r = clock 0 \<and> endTime r \<noteq> None \<and> success r \<and> error r = None
    \<and> map step_name (successful_steps r) = map fst (outputs r)
    \<and> keeps_outputs F eng reg img r"
  using assms unfolding try_block_def keeps_outputs_def
  by (auto simp: Let_def new_PipelineResult_def addStep_def complete_def successful_steps_def
      split: prod.splits option.splits sum.splits)

lemma try_block_Thrown:
  assumes "try_block F eng reg clock img = (cs, ns, eng', Thrown err res k)"
  shows "startTime res = clock 0 \<and> error res = None
    \<and> map step_name (successful_steps res) = map fst (outputs res)
    \<and> keeps_outputs F eng reg img res"
  using assms unfolding try_block_def keeps_outputs_def
  by (auto simp: Let_def new_PipelineResult_def addStep_def complete_def successful_steps_def
      split: prod.splits option.splits sum.splits)

section \<open>Claims about the registry\<close>

text \<open>
  C9: for every \<open>register(id, model, options)\<close> call in which \<open>options.priority\<close> is falsy
  (\<open>0\<close>, \<open>null\<close> or absent) the stored registration's priority is \<open>1\<close>. No call stores
  priority \<open>0\<close>: registering with priority \<open>0\<close> leaves the registry in the very state that
  registering with no priority, or with priority \<open>1\<close>, leaves it in, so \<open>getByCapability\<close>
  ranks such a model with the default-priority ones.
\<close>

theorem register_priority:
  "map_get (models (register ident m opts r)) ident = Some (make_registration m opts)
   \<and> priority (make_registration m opts) \<noteq> 0
   \<and> (opt_priority opts = None \<or> opt_priority opts = Some 0 \<longrightarrow> priority (make_registration m opts) = 1)
   \<and> register ident m (opts\<lparr> opt_priority := Some 0 \<rparr>) r = register ident m (opts\<lparr> opt_priority := None \<rparr>) r
   \<and> getByCapability (register ident m (opts\<lparr> opt_priority := Some 0 \<rparr>) r) flt
       = getByCapability (register ident m (opts\<lparr> opt_priority := Some 1 \<rparr>) r) flt"
proof -
  have a: "map_get (models (register ident m opts r)) ident = Some (make_registration m opts)"
    by (simp add: models_register map_get_map_set)
  have b: "priority (make_registration m opts) \<noteq> 0"
    by (simp add: make_registration_def priority_or_1_nonzero)
  have c: "opt_priority opts = None \<or> opt_priority opts = Some 0 \<longrightarrow> priority (make_registration m opts) = 1"
    by (auto simp: make_registration_def priority_or_1_def)
  have d: "register ident m (opts\<lparr> opt_priority := Some 0 \<rparr>) r = register ident m (opts\<lparr> opt_priority := None \<rparr>) r"
    by (rule register_cong_registration) (rule make_registration_priority_0)
  have e: "register ident m (opts\<lparr> opt_priority := Some 0 \<rparr>) r = register ident m (opts\<lparr> opt_priority := Some 1 \<rparr>) r"
    by (rule register_cong_registration) (rule make_registration_priority_0)
  from a b c d e show ?thesis by simp
qed

theorem register_priority_witness:
  "opt_priority (no_options\<lparr> opt_priority := Some 0 \<rparr>) = Some 0
   \<and> map_get (models (register ''m'' example_detector (no_options\<lparr> opt_priority := Some 0 \<rparr>)
         new_ModelRegistry)) ''m''
       = Some (make_registration example_detector (no_options\<lparr> opt_priority := Some 0 \<rparr>))
   \<and> priority (make_registration example_detector (no_options\<lparr> opt_priority := Some 0 \<rparr>)) = 1"
proof -
  have h: "opt_priority (no_options\<lparr> opt_priority := Some 0 \<rparr>) = Some 0"
    by simp
  from register_priority [where ident = "''m''" and m = example_detector
      and opts = "no_options\<lparr> opt_priority := Some 0 \<rparr>" and r = new_ModelRegistry
      and flt = image_filter] h
  show ?thesis by blast
qed

text \<open>
  C3, as the claim states it, fails: \<open>register\<close> pushes the id onto the chain at every call.
  Registering \<open>f\<close> twice as a fallback for \<open>p\<close> leaves \<open>f\<close> twice in the chain of \<open>p\<close>, and
  registering it for \<open>p\<close> and then for \<open>q\<close> leaves it in the chain of \<open>p\<close>, while its
  registration names \<open>q\<close>.
\<close>

theorem register_twice_duplicates_chain:
  "chain_of (register ''f'' example_detector (fallback_options ''p'')
       (register ''f'' example_detector (fallback_options ''p'') new_ModelRegistry)) ''p''
     = [''f'', ''f'']
   \<and> chain_of (register ''f'' example_detector (fallback_options ''q'')
       (register ''f'' example_detector (fallback_options ''p'') new_ModelRegistry)) ''p''
     = [''f'']
   \<and> map_option fallbackFor (map_get (models (register ''f'' example_detector (fallback_options ''q'')
       (register ''f'' example_detector (fallback_options ''p'') new_ModelRegistry))) ''f'')
     = Some (Some ''q'')"
  by (simp add: chain_of_register models_register map_get_map_set fallback_options_def
      fallbackFor_or_null_def make_registration_def)

text \<open>
  C3, amended: after any sequence of \<open>register\<close> calls, the fallback chain of a primary \<open>p\<close>
  is the chain it had before followed by the ids of exactly the calls whose \<open>fallbackFor\<close>
  is \<open>p\<close>, in call order, one entry for each such call. So an id stands in a chain once for
  every time it was registered with that \<open>fallbackFor\<close>, and a later registration with
  another \<open>fallbackFor\<close> takes nothing out of a chain.
\<close>

theorem register_all_chain:
  "chain_of (register_all calls r) p =
     chain_of r p @
     map fst (filter (\<lambda>(ident, m, opts). fallbackFor_or_null (opt_fallbackFor opts) = Some p) calls)"
  by (rule chain_of_register_all)

theorem register_all_chain_witness:
  "chain_of (register_all
       [(''f'', example_detector, fallback_options ''p''),
        (''g'', example_detector, fallback_options ''p''),
        (''f'', example_detector, fallback_options ''q'')] new_ModelRegistry) ''p''
     = [''f'', ''g'']"
  using register_all_chain [of
      "[(''f'', example_detector, fallback_options ''p''),
        (''g'', example_detector, fallback_options ''p''),
        (''f'', example_detector, fallback_options ''q'')]" new_ModelRegistry "''p''"]
  by (simp add: fallback_options_def fallbackFor_or_null_def)

text \<open>
  C6: for every registry state and every capability filter, \<open>getByCapability\<close> returns
  exactly the enabled registrations whose descriptor matches the filter (as a multiset: each
  matching entry of the models map once), sorted by descending priority; entries of equal
  priority keep the insertion order of the models map; every returned element belongs to
  an enabled registration, so a disabled one is never returned.
\<close>

theorem getByCapability_sorted_matches:
  "mset (getByCapability r flt) =
     mset (map to_match (filter (\<lambda>e. enabled (snd e) \<and> capability_match flt (getCapabilities (model (snd e)))) (models r)))
   \<and> sorted_wrt (\<lambda>a b. match_priority b \<le> match_priority a) (getByCapability r flt)
   \<and> (\<forall>p. filter (\<lambda>e. match_priority e = p) (getByCapability r flt) =
            map to_match (filter (\<lambda>e. enabled (snd e)
               \<and> capability_match flt (getCapabilities (model (snd e))) \<and> priority (snd e) = p) (models r)))
   \<and> (\<forall>e \<in> set (getByCapability r flt). \<exists>reg. (match_id e, reg) \<in> set (models r) \<and> enabled reg
          \<and> capability_match flt (getCapabilities (model reg))
          \<and> match_model e = model reg \<and> match_priority e = priority reg)"
proof -
  let ?ok = "\<lambda>e. enabled (snd e) \<and> capability_match flt (getCapabilities (model (snd e)))"
  have g: "getByCapability r flt =
      array_sort (\<lambda>a b. match_priority b - match_priority a) (map to_match (filter ?ok (models r)))"
    by (simp add: getByCapability_def collect_matches_eq)
  have a: "mset (getByCapability r flt) = mset (map to_match (filter ?ok (models r)))"
    unfolding g by (rule mset_array_sort)
  have b: "sorted_wrt (\<lambda>a b. match_priority b \<le> match_priority a) (getByCapability r flt)"
    unfolding g by (rule sorted_array_sort)
  have c: "filter (\<lambda>e. match_priority e = p) (getByCapability r flt) =
            map to_match (filter (\<lambda>e. ?ok e \<and> priority (snd e) = p) (models r))" for p
  proof -
    have "filter (\<lambda>e. match_priority e = p) (getByCapability r flt) =
          filter (\<lambda>e. match_priority e = p) (map to_match (filter ?ok (models r)))"
      unfolding g by (rule filter_array_sort)
    also have "\<dots> = map to_match (filter (\<lambda>e. ?ok e \<and> priority (snd e) = p) (models r))"
      by (simp add: filter_map o_def to_match_def)
    finally show ?thesis .
  qed
  have "set (getByCapability r flt) = to_match ` set (filter ?ok (models r))"
  proof -
    have "set_mset (mset (getByCapability r flt)) = set_mset (mset (map to_match (filter ?ok (models r))))"
      using a by simp
    then show ?thesis by simp
  qed
  then have d: "\<forall>e \<in> set (getByCapability r flt). \<exists>reg. (match_id e, reg) \<in> set (models r) \<and> enabled reg
          \<and> capability_match flt (getCapabilities (model reg))
          \<and> match_model e = model reg \<and> match_priority e = priority reg"
    by (auto simp: to_match_def)
  have c2: "\<forall>p. filter (\<lambda>e. match_priority e = p) (getByCapability r flt) =
            map to_match (filter (\<lambda>e. enabled (snd e)
               \<and> capability_match flt (getCapabilities (model (snd e))) \<and> priority (snd e) = p) (models r))"
    using c by (simp add: conj_assoc)
  show ?thesis by (intro conjI) (rule a b c2 d)+
qed

theorem getByCapability_sorted_matches_witness:
  "map match_id (getByCapability example_registry image_filter) = [''b'', ''a'', ''d'']
   \<and> sorted_wrt (\<lambda>a b. match_priority b \<le> match_priority a)
        (getByCapability example_registry image_filter)
   \<and> filter (\<lambda>e. match_priority e = 1) (getByCapability example_registry image_filter) =
        map to_match (filter (\<lambda>e. enabled (snd e)
          \<and> capability_match image_filter (getCapabilities (model (snd e))) \<and> priority (snd e) = 1)
          (models example_registry))"
proof -
  have "map match_id (getByCapability example_registry image_filter) = [''b'', ''a'', ''d'']"
    by (simp add: getByCapability_def example_registry_def image_filter_def models_register
        make_registration_def no_options_def priority_or_1_def enabled_not_false_def
        example_detector_def example_model_def field_match_def array_sort_def)
  with getByCapability_sorted_matches [of example_registry image_filter]
  show ?thesis by blast
qed

text \<open>
  C7: evaluation of the code on a registry that \<open>register\<close> builds. After \<open>f\<close> has been
  registered twice as a fallback for \<open>p\<close>, \<open>unregister(f)\<close> removes the registration
  (\<open>get(f)\<close> returns nothing) but takes only the first \<open>f\<close> out of the chain of \<open>p\<close>; \<open>f\<close>
  is still in that chain, and a second \<open>unregister(f)\<close>, of an id that now has no
  registration, changes the chain again.
\<close>

theorem unregister_duplicate_entry:
  "get (unregister ''f'' (register ''f'' example_detector (fallback_options ''p'')
          (register ''f'' example_detector (fallback_options ''p'') new_ModelRegistry))) ''f'' = None
   \<and> chain_of (unregister ''f'' (register ''f'' example_detector (fallback_options ''p'')
          (register ''f'' example_detector (fallback_options ''p'') new_ModelRegistry))) ''p'' = [''f'']
   \<and> chain_of (unregister ''f'' (unregister ''f'' (register ''f'' example_detector (fallback_options ''p'')
          (register ''f'' example_detector (fallback_options ''p'') new_ModelRegistry)))) ''p'' = []"
  by (simp add: get_unregister chain_of_unregister chain_of_register fallback_options_def
      fallbackFor_or_null_def)

text \<open>
  C8, as the claim states it, fails: with \<open>f\<close> registered as a fallback for \<open>p\<close> and \<open>p\<close>
  never registered, \<open>getFallbacks(p)\<close> returns the model of \<open>f\<close>.
\<close>

theorem getFallbacks_unregistered_primary:
  "map_get (models (register ''f'' example_detector (fallback_options ''p'') new_ModelRegistry)) ''p'' = None
   \<and> getFallbacks (register ''f'' example_detector (fallback_options ''p'') new_ModelRegistry) ''p''
       = [example_detector]"
  by (simp add: getFallbacks_eq chain_of_register fallback_options_def fallbackFor_or_null_def
      get_def models_register make_registration_def enabled_not_false_def)

text \<open>
  C8, amended: \<open>getFallbacks(P)\<close> does not look at the registration of \<open>P\<close>. It returns the
  models of the ids in the chain of \<open>P\<close> that have an enabled registration, in chain order;
  it is empty exactly when no id of the chain has one (in particular when no model was
  registered with \<open>fallbackFor = P\<close>); and \<open>unregister(P)\<close> leaves the result as it was,
  unless \<open>P\<close> stands in its own chain.
\<close>

theorem getFallbacks_ignores_primary:
  "getFallbacks r p = List.map_filter (get r) (chain_of r p)
   \<and> (getFallbacks r p = [] \<longleftrightarrow> (\<forall>f \<in> set (chain_of r p). get r f = None))
   \<and> (p \<notin> set (chain_of r p) \<longrightarrow>
        get (unregister p r) p = None \<and> getFallbacks (unregister p r) p = getFallbacks r p)"
proof -
  have a: "getFallbacks r p = List.map_filter (get r) (chain_of r p)"
    by (rule getFallbacks_eq)
  have b: "getFallbacks r p = [] \<longleftrightarrow> (\<forall>f \<in> set (chain_of r p). get r f = None)"
    unfolding a by (induction "chain_of r p") (auto simp: List.map_filter_def filter_empty_conv)
  have c: "getFallbacks (unregister p r) p = getFallbacks r p"
    if "p \<notin> set (chain_of r p)"
  proof -
    from that have "chain_of (unregister p r) p = chain_of r p"
      by (simp add: chain_of_unregister remove1_idem)
    moreover have "List.map_filter (get (unregister p r)) (chain_of r p)
        = List.map_filter (get r) (chain_of r p)"
      using that by (intro map_filter_cong_set get_unregister_other) auto
    ultimately show ?thesis
      by (simp add: getFallbacks_eq)
  qed
  have d: "get (unregister p r) p = None"
    by (rule get_unregister)
  from a b c d show ?thesis by blast
qed

theorem getFallbacks_ignores_primary_witness:
  "''p'' \<notin> set (chain_of (register ''f'' example_detector (fallback_options ''p'')
        (register ''p'' example_detector no_options new_ModelRegistry)) ''p'')
   \<and> get (unregister ''p'' (register ''f'' example_detector (fallback_options ''p'')
        (register ''p'' example_detector no_options new_ModelRegistry))) ''p'' = None
   \<and> getFallbacks (unregister ''p'' (register ''f'' example_detector (fallback_options ''p'')
        (register ''p'' example_detector no_options new_ModelRegistry))) ''p''
       = getFallbacks (register ''f'' example_detector (fallback_options ''p'')
           (register ''p'' example_detector no_options new_ModelRegistry)) ''p''
   \<and> getFallbacks (register ''f'' example_detector (fallback_options ''p'')
           (register ''p'' example_detector no_options new_ModelRegistry)) ''p'' = [example_detector]"
proof -
  have h: "''p'' \<notin> set (chain_of (register ''f'' example_detector (fallback_options ''p'')
        (register ''p'' example_detector no_options new_ModelRegistry)) ''p'')"
    by (simp add: chain_of_register fallback_options_def no_options_def fallbackFor_or_null_def)
  have e: "getFallbacks (register ''f'' example_detector (fallback_options ''p'')
           (register ''p'' example_detector no_options new_ModelRegistry)) ''p'' = [example_detector]"
    by (simp add: getFallbacks_eq chain_of_register fallback_options_def no_options_def
        fallbackFor_or_null_def get_def models_register map_get_map_set make_registration_def
        enabled_not_false_def)
  from getFallbacks_ignores_primary [of "register ''f'' example_detector (fallback_options ''p'')
        (register ''p'' example_detector no_options new_ModelRegistry)" "''p''"] h e
  show ?thesis by blast
qed

section \<open>Claims about the pipeline engine\<close>

text \<open>
  C1: when the primary id \<open>P\<close> has an enabled registration with model \<open>m\<close>,
  \<open>runWithFallback(P, input, context)\<close> returns the output of \<open>m\<close> when its \<open>analyze\<close>
  succeeds, calling nothing else. When it fails with \<open>e\<close>, the fallbacks
  \<open>getFallbacks(P)\<close> (the enabled registered models of the chain of \<open>P\<close>, in chain order)
  are called in order with the same input and context up to the first that succeeds, whose
  output is returned; when all of them fail, or there is none, the error raised is \<open>e\<close>,
  the failure of the primary.
\<close>

theorem runWithFallback_first_success:
  assumes "get reg P = Some m"
  shows "(analyze m inp c = Inr out \<longrightarrow>
            runWithFallback reg P inp c = ([(m, inp, c)], Inr out))
       \<and> (analyze m inp c = Inl e \<and> getFallbacks reg P = pre @ f # post
            \<and> (\<forall>g \<in> set pre. isl (analyze g inp c)) \<and> analyze f inp c = Inr out' \<longrightarrow>
            runWithFallback reg P inp c = (map (\<lambda>g. (g, inp, c)) (m # pre @ [f]), Inr out'))
       \<and> (analyze m inp c = Inl e \<and> (\<forall>g \<in> set (getFallbacks reg P). isl (analyze g inp c)) \<longrightarrow>
            runWithFallback reg P inp c = (map (\<lambda>g. (g, inp, c)) (m # getFallbacks reg P), Inl e))
       \<and> getFallbacks reg P = List.map_filter (get reg) (chain_of reg P)"
proof (intro conjI impI)
  assume "analyze m inp c = Inr out"
  with assms show "runWithFallback reg P inp c = ([(m, inp, c)], Inr out)"
    by (simp add: runWithFallback_def)
next
  assume a: "analyze m inp c = Inl e \<and> getFallbacks reg P = pre @ f # post
            \<and> (\<forall>g \<in> set pre. isl (analyze g inp c)) \<and> analyze f inp c = Inr out'"
  then have "try_fallbacks (getFallbacks reg P) inp c = (map (\<lambda>g. (g, inp, c)) (pre @ [f]), Some out')"
    by (simp add: try_fallbacks_first_success)
  with assms a show "runWithFallback reg P inp c = (map (\<lambda>g. (g, inp, c)) (m # pre @ [f]), Inr out')"
    by (simp add: runWithFallback_def)
next
  assume a: "analyze m inp c = Inl e \<and> (\<forall>g \<in> set (getFallbacks reg P). isl (analyze g inp c))"
  then have "try_fallbacks (getFallbacks reg P) inp c = (map (\<lambda>g. (g, inp, c)) (getFallbacks reg P), None)"
    by (simp add: try_fallbacks_all_fail)
  with assms a show "runWithFallback reg P inp c = (map (\<lambda>g. (g, inp, c)) (m # getFallbacks reg P), Inl e)"
    by (simp add: runWithFallback_def)
next
  show "getFallbacks reg P = List.map_filter (get reg) (chain_of reg P)"
    by (rule getFallbacks_eq)
qed

theorem runWithFallback_first_success_witness:
  "get fallback_registry ''p'' = Some (failing_model ''P'' ''p down'')
   \<and> getFallbacks fallback_registry ''p'' = [failing_model ''F1'' ''f1 down'', succeeding_model ''F2'' 9]
   \<and> runWithFallback fallback_registry ''p'' 0 [] =
        ([(failing_model ''P'' ''p down'', 0, []), (failing_model ''F1'' ''f1 down'', 0, []),
          (succeeding_model ''F2'' 9, 0, [])], Inr 9)
   \<and> get failing_registry ''p'' = Some (failing_model ''P'' ''p down'')
   \<and> runWithFallback failing_registry ''p'' 0 [] =
        ([(failing_model ''P'' ''p down'', 0, []), (failing_model ''F1'' ''f1 down'', 0, []),
          (failing_model ''F2'' ''f2 down'', 0, [])], Inl (Error ''p down''))"
proof -
  have ha: "analyze (failing_model ''P'' ''p down'') 0 [] = Inl (Error ''p down'')
      \<and> getFallbacks fallback_registry ''p'' = [failing_model ''F1'' ''f1 down''] @ succeeding_model ''F2'' 9 # []
      \<and> (\<forall>g \<in> set [failing_model ''F1'' ''f1 down'']. isl (analyze g 0 []))
      \<and> analyze (succeeding_model ''F2'' 9) 0 [] = Inr 9"
    by (simp add: getFallbacks_fallback_registry)
  from runWithFallback_first_success [OF get_fallback_registry, where inp = 0 and c = "[]"
        and e = "Error ''p down''" and pre = "[failing_model ''F1'' ''f1 down'']"
        and f = "succeeding_model ''F2'' 9" and post = "[]" and out' = 9] ha
  have "runWithFallback fallback_registry ''p'' 0 [] =
        (map (\<lambda>g. (g, 0, [])) (failing_model ''P'' ''p down'' # [failing_model ''F1'' ''f1 down'']
           @ [succeeding_model ''F2'' 9]), Inr 9)"
    by blast
  then have a: "runWithFallback fallback_registry ''p'' 0 [] =
        ([(failing_model ''P'' ''p down'', 0, []), (failing_model ''F1'' ''f1 down'', 0, []),
          (succeeding_model ''F2'' 9, 0, [])], Inr 9)"
    by simp
  have hb: "analyze (failing_model ''P'' ''p down'') 0 [] = Inl (Error ''p down'')
      \<and> (\<forall>g \<in> set (getFallbacks failing_registry ''p''). isl (analyze g 0 []))"
    by (simp add: getFallbacks_failing_registry)
  from runWithFallback_first_success [OF get_failing_registry, where inp = 0 and c = "[]"
        and e = "Error ''p down''"] hb
  have "runWithFallback failing_registry ''p'' 0 [] =
        (map (\<lambda>g. (g, 0, [])) (failing_model ''P'' ''p down'' # getFallbacks failing_registry ''p''),
         Inl (Error ''p down''))"
    by blast
  then have b: "runWithFallback failing_registry ''p'' 0 [] =
        ([(failing_model ''P'' ''p down'', 0, []), (failing_model ''F1'' ''f1 down'', 0, []),
          (failing_model ''F2'' ''f2 down'', 0, [])], Inl (Error ''p down''))"
    by (simp add: getFallbacks_failing_registry)
  show ?thesis
    by (intro conjI) (rule get_fallback_registry getFallbacks_fallback_registry a
        get_failing_registry b)+
qed

text \<open>
  C2: evaluation of the code on a run in which step 1 succeeds and step 2 fails with no
  fallbacks and no observers. The \<open>catch\<close> clause sets \<open>result.error\<close> and completes the
  result; it does not call \<open>addError\<close>. The result has \<open>success = false\<close>, the top-level
  error, the record and the output of step 1, and no failed step record, where the claim
  wants exactly one. \<open>addError\<close>, called with the step's name and error, appends that
  record.
\<close>

theorem pipeline_no_failed_step_record:
  "run_settled (executeImagePipeline silent new_PipelineEngine half_failing_registry int 0) =
     Resolved \<lparr> steps = [\<lparr> step_name = ''vision'', step_duration = 1, step_success = True,
                            step_error = None \<rparr>],
                outputs = [(''vision'', 7)], startTime = 0, endTime = Some 4, success = False,
                error = Some (Error ''API Error'') \<rparr>
   \<and> failed_steps \<lparr> steps = [\<lparr> step_name = ''vision'', step_duration = 1, step_success = True,
                            step_error = None \<rparr>],
                outputs = [(''vision'', 7::nat)], startTime = 0, endTime = Some 4, success = False,
                error = Some (Error ''API Error'') \<rparr> = []
   \<and> addError ''reasoning'' (Error ''API Error'') 1
        \<lparr> steps = [\<lparr> step_name = ''vision'', step_duration = 1, step_success = True,
                            step_error = None \<rparr>],
          outputs = [(''vision'', 7::nat)], startTime = 0, endTime = None, success = False,
          error = None \<rparr>
     = Normal \<lparr> steps = [\<lparr> step_name = ''vision'', step_duration = 1, step_success = True,
                            step_error = None \<rparr>,
                         \<lparr> step_name = ''reasoning'', step_duration = 1, step_success = False,
                            step_error = Some ''API Error'' \<rparr>],
          outputs = [(''vision'', 7)], startTime = 0, endTime = None, success = False,
          error = Some (Error ''API Error'') \<rparr>"
  by (simp add: executeImagePipeline_def try_block_def run_half_failing new_PipelineResult_def
      addStep_def complete_def failed_steps_def addError_def)

text \<open>
  C4, as the claim states it, fails: \<open>_emitProgress\<close> calls the observers in a plain
  \<open>forEach\<close>. With a first observer that throws and a second that does not, only the first
  is called, and the run of the pipeline ends with that exception without an \<open>analyze\<close>
  call, although both models would succeed. And with a first observer that unsubscribes
  itself while it is notified, the second of three observers is passed over though nothing
  is thrown.
\<close>

theorem emitProgress_two_observers:
  "emitProgress first_raises \<lparr> progressCallbacks = [1, 2] \<rparr> 1 2 (Some ''Scanning image...'') ''loading''
     = ([(1, loading_event, Some (Error ''observer failed''))], \<lparr> progressCallbacks = [1, 2] \<rparr>,
        Some (Error ''observer failed''))
   \<and> run_settled (executeImagePipeline first_raises \<lparr> progressCallbacks = [1, 2] \<rparr>
         working_registry int 0) = Rejected (Error ''observer failed'')
   \<and> run_calls (executeImagePipeline first_raises \<lparr> progressCallbacks = [1, 2] \<rparr>
         working_registry int 0) = []
   \<and> emitProgress self_unsubscribing \<lparr> progressCallbacks = [1, 2, 3] \<rparr> 1 2
         (Some ''Scanning image...'') ''loading''
     = ([(1, loading_event, None), (3, loading_event, None)], \<lparr> progressCallbacks = [2, 3] \<rparr>, None)"
proof -
  have a: "emitProgress first_raises \<lparr> progressCallbacks = [1, 2] \<rparr> s t m st
     = ([(1, \<lparr> ev_step = s, ev_total = t, ev_message = m, ev_status = st \<rparr>,
          Some (Error ''observer failed''))], \<lparr> progressCallbacks = [1, 2] \<rparr>,
        Some (Error ''observer failed''))" for s t m st
    by (simp add: emitProgress_def first_raises_def)
  have a0: "emitProgress first_raises \<lparr> progressCallbacks = [1, 2] \<rparr> 1 2
        (Some ''Scanning image...'') ''loading''
     = ([(1, loading_event, Some (Error ''observer failed''))], \<lparr> progressCallbacks = [1, 2] \<rparr>,
        Some (Error ''observer failed''))"
    unfolding loading_event_def by (rule a)
  have b: "try_block first_raises \<lparr> progressCallbacks = [1, 2] \<rparr> working_registry int (0::nat)
     = ([], [(1, loading_event, Some (Error ''observer failed''))], \<lparr> progressCallbacks = [1, 2] \<rparr>,
        Thrown (Error ''observer failed'') (new_PipelineResult (int 0)) 1)"
    by (rule try_block_first_emit_raises) (rule a0)
  have c: "emitProgress self_unsubscribing \<lparr> progressCallbacks = [1, 2, 3] \<rparr> 1 2
         (Some ''Scanning image...'') ''loading''
     = ([(1, loading_event, None), (3, loading_event, None)], \<lparr> progressCallbacks = [2, 3] \<rparr>, None)"
    by (simp add: emitProgress_def self_unsubscribing_def loading_event_def apply_ops_def
        unsubscribe_def numeral_3_eq_3)
  have d: "run_settled (executeImagePipeline first_raises \<lparr> progressCallbacks = [1, 2] \<rparr>
         working_registry int 0) = Rejected (Error ''observer failed'')"
    unfolding executeImagePipeline_def b by (simp add: a del: One_nat_def)
  have e: "run_calls (executeImagePipeline first_raises \<lparr> progressCallbacks = [1, 2] \<rparr>
         working_registry int 0) = []"
    unfolding executeImagePipeline_def b by (simp add: a del: One_nat_def)
  show ?thesis
    by (intro conjI) (rule a0 d e c)+
qed

text \<open>
  C4, amended: each progress emission whose observers leave the observer list as it is
  calls the observers in registration order, up to and including the first one that
  throws. When none throws, all are called. When one throws, the observers registered
  after it are not called and the exception leaves \<open>_emitProgress\<close>. Thrown during the first
  \<open>loading\<close> notification, it ends the \<open>try\<close> block before any \<open>analyze\<close> call: the run
  makes none, the \<open>catch\<close> clause catches the exception, and the run returns a failed result
  without steps, or rejects: with the \<open>TypeError\<close> of \<open>error.message\<close> when the value
  thrown is \<open>null\<close> or \<open>undefined\<close>, or with what an observer throws on the \<open>error\<close>
  notification.
\<close>

theorem emitProgress_stops_at_raise:
  "((\<forall>cb \<in> set (progressCallbacks eng).
        F cb \<lparr> ev_step = s, ev_total = t, ev_message = m, ev_status = st \<rparr> = ([], None)) \<longrightarrow>
      emitProgress F eng s t m st =
        (map (\<lambda>cb. (cb, \<lparr> ev_step = s, ev_total = t, ev_message = m, ev_status = st \<rparr>, None))
           (progressCallbacks eng), eng, None))
   \<and> (progressCallbacks eng = pre @ cb # post
        \<and> (\<forall>c \<in> set pre.
              F c \<lparr> ev_step = s, ev_total = t, ev_message = m, ev_status = st \<rparr> = ([], None))
        \<and> F cb \<lparr> ev_step = s, ev_total = t, ev_message = m, ev_status = st \<rparr> = (ops, Some e) \<longrightarrow>
      emitProgress F eng s t m st =
        (map (\<lambda>c. (c, \<lparr> ev_step = s, ev_total = t, ev_message = m, ev_status = st \<rparr>, None)) pre
           @ [(cb, \<lparr> ev_step = s, ev_total = t, ev_message = m, ev_status = st \<rparr>, Some e)],
         apply_ops ops eng, Some e))
   \<and> (emitProgress F eng 1 2 (Some ''Scanning image...'') ''loading'' = (n1, eng1, Some e') \<longrightarrow>
      run_calls (executeImagePipeline F eng reg clock img) = []
      \<and> run_caught (executeImagePipeline F eng reg clock img) = Some e'
      \<and> run_settled (executeImagePipeline F eng reg clock img) =
        (case read_message e' of
           TypeError \<Rightarrow> RejectedTypeError
         | Normal msg \<Rightarrow>
             (case emitProgress F eng1 0 2 msg ''error'' of
                (n, eng2, Some e'') \<Rightarrow> Rejected e''
              | (n, eng2, None) \<Rightarrow>
                  Resolved \<lparr> steps = [], outputs = [], startTime = clock 0,
                             endTime = Some (clock 1), success = False, error = Some e' \<rparr>)))"
proof (intro conjI impI)
  let ?ev = "\<lparr> ev_step = s, ev_total = t, ev_message = m, ev_status = st \<rparr>"
  assume "\<forall>cb \<in> set (progressCallbacks eng). F cb ?ev = ([], None)"
  then have "forEach_from F ?ev (length (progressCallbacks eng)) 0 eng =
      (map (\<lambda>c. (c, ?ev, None)) (drop 0 (progressCallbacks eng)), eng, None)"
    by (intro forEach_from_plain) simp_all
  then show "emitProgress F eng s t m st = (map (\<lambda>cb. (cb, ?ev, None)) (progressCallbacks eng), eng, None)"
    by (simp add: emitProgress_def)
next
  let ?ev = "\<lparr> ev_step = s, ev_total = t, ev_message = m, ev_status = st \<rparr>"
  assume a: "progressCallbacks eng = pre @ cb # post
        \<and> (\<forall>c \<in> set pre. F c ?ev = ([], None)) \<and> F cb ?ev = (ops, Some e)"
  then have "forEach_from F ?ev (length (progressCallbacks eng)) 0 eng =
      (map (\<lambda>c. (c, ?ev, None)) (drop 0 pre) @ [(cb, ?ev, Some e)], apply_ops ops eng, Some e)"
    by (intro forEach_from_raise [where post = post]) simp_all
  then show "emitProgress F eng s t m st =
      (map (\<lambda>c. (c, ?ev, None)) pre @ [(cb, ?ev, Some e)], apply_ops ops eng, Some e)"
    by (simp add: emitProgress_def)
next
  assume "emitProgress F eng 1 2 (Some ''Scanning image...'') ''loading'' = (n1, eng1, Some e')"
  then have t: "try_block F eng reg clock img = ([], n1, eng1, Thrown e' (new_PipelineResult (clock 0)) 1)"
    by (rule try_block_first_emit_raises)
  show "run_calls (executeImagePipeline F eng reg clock img) = []"
    by (simp add: executeImagePipeline_def t split: completion.splits prod.splits option.splits)
  show "run_caught (executeImagePipeline F eng reg clock img) = Some e'"
    by (simp add: executeImagePipeline_def t split: completion.splits prod.splits option.splits)
  show "run_settled (executeImagePipeline F eng reg clock img) =
        (case read_message e' of
           TypeError \<Rightarrow> RejectedTypeError
         | Normal msg \<Rightarrow>
             (case emitProgress F eng1 0 2 msg ''error'' of
                (n, eng2, Some e'') \<Rightarrow> Rejected e''
              | (n, eng2, None) \<Rightarrow>
                  Resolved \<lparr> steps = [], outputs = [], startTime = clock 0,
                             endTime = Some (clock 1), success = False, error = Some e' \<rparr>))"
    by (simp add: executeImagePipeline_def t new_PipelineResult_def complete_def
        split: completion.splits prod.splits option.splits)
qed

theorem emitProgress_stops_at_raise_witness:
  "progressCallbacks \<lparr> progressCallbacks = [1, 2, 3] \<rparr> = [1] @ 2 # [3]
   \<and> emitProgress second_raises \<lparr> progressCallbacks = [1, 2, 3] \<rparr> 1 2
        (Some ''Scanning image...'') ''loading''
     = ([(1, loading_event, None), (2, loading_event, Some (Error ''observer failed''))],
        \<lparr> progressCallbacks = [1, 2, 3] \<rparr>, Some (Error ''observer failed''))
   \<and> emitProgress silent \<lparr> progressCallbacks = [1, 3] \<rparr> 1 2
        (Some ''Scanning image...'') ''loading''
     = ([(1, loading_event, None), (3, loading_event, None)], \<lparr> progressCallbacks = [1, 3] \<rparr>, None)"
proof -
  let ?eng = "\<lparr> progressCallbacks = [1, 2, 3] \<rparr>"
  have h: "progressCallbacks ?eng = [1] @ 2 # [3]
      \<and> (\<forall>c \<in> set [1]. second_raises c loading_event = ([], None))
      \<and> second_raises 2 loading_event = ([], Some (Error ''observer failed''))"
    by (simp add: second_raises_def)
  from emitProgress_stops_at_raise [where F = second_raises and eng = ?eng and s = 1 and t = 2
      and m = "Some ''Scanning image...''" and st = "''loading''" and pre = "[1]"
      and cb = 2 and post = "[3]" and ops = "[]"
      and e = "Error ''observer failed''" and e' = "Error ''observer failed''"
      and ?n1.0 = "[]" and ?eng1.0 = ?eng
      and reg = working_registry and clock = int and img = 0] h
  have a: "emitProgress second_raises ?eng 1 2 (Some ''Scanning image...'') ''loading''
     = (map (\<lambda>c. (c, loading_event, None)) [1] @ [(2, loading_event, Some (Error ''observer failed''))],
        apply_ops [] ?eng, Some (Error ''observer failed''))"
    unfolding loading_event_def by blast
  have h2: "\<forall>cb \<in> set (progressCallbacks \<lparr> progressCallbacks = [1, 3] \<rparr>).
      silent cb loading_event = ([], None)"
    by (simp add: silent_def)
  from emitProgress_stops_at_raise [where F = silent and eng = "\<lparr> progressCallbacks = [1, 3] \<rparr>"
      and s = 1 and t = 2 and m = "Some ''Scanning image...''" and st = "''loading''"
      and pre = "[]" and cb = 1 and post = "[]" and ops = "[]"
      and e = "Error ''observer failed''" and e' = "Error ''observer failed''"
      and ?n1.0 = "[]" and ?eng1.0 = ?eng
      and reg = working_registry and clock = int and img = 0] h2
  have b: "emitProgress silent \<lparr> progressCallbacks = [1, 3] \<rparr> 1 2
        (Some ''Scanning image...'') ''loading''
     = (map (\<lambda>cb. (cb, loading_event, None)) (progressCallbacks \<lparr> progressCallbacks = [1, 3] \<rparr>),
        \<lparr> progressCallbacks = [1, 3] \<rparr>, None)"
    unfolding loading_event_def by blast
  from a b show ?thesis by simp
qed

text \<open>
  C5, as the claim states it, fails: the \<open>catch\<close> clause notifies the observers before it
  completes the result. With an observer that throws on the \<open>error\<close> notification and no
  model registered, the run rejects with the observer's exception and returns no result.
\<close>

theorem pipeline_observer_raises_in_catch:
  "run_settled (executeImagePipeline raising_on_error \<lparr> progressCallbacks = [5] \<rparr>
       (new_ModelRegistry :: (nat, nat) registry) int 0)
     = Rejected (Error ''observer failed'')"
  by (simp add: executeImagePipeline_def try_block_def emitProgress_def raising_on_error_def
      runWithFallback_def get_def)

text \<open>
  C5, amended: for every input and every registry state, a run in which the value that the
  \<open>catch\<close> clause catches is not \<open>null\<close> or \<open>undefined\<close> and no observer throws on the
  \<open>error\<close> notification returns a \<open>PipelineResult\<close> and propagates no exception, also when
  a step fails or an observer throws on another notification. In the result \<open>startTime\<close>
  and \<open>endTime\<close> are set, \<open>success\<close> holds exactly when the top-level error is unset, the
  top-level error is the value caught, the successful step records are those of the
  outputs, and the output of every step that ran and succeeded is in the outputs.
\<close>

theorem pipeline_returns_result:
  assumes "run_caught (executeImagePipeline F eng reg clock img) \<noteq> Some Nullish"
    and "\<forall>n \<in> set (run_notified (executeImagePipeline F eng reg clock img)).
           ev_status (fst (snd n)) = ''error'' \<longrightarrow> snd (snd n) = None"
  shows "\<exists>r. run_settled (executeImagePipeline F eng reg clock img) = Resolved r
            \<and> startTime r = clock 0 \<and> endTime r \<noteq> None
            \<and> (success r \<longleftrightarrow> error r = None)
            \<and> error r = run_caught (executeImagePipeline F eng reg clock img)
            \<and> map step_name (successful_steps r) = map fst (outputs r)
            \<and> (\<forall>n1 eng1 d.
                  emitProgress F eng 1 2 (Some ''Scanning image...'') ''loading'' = (n1, eng1, None)
                  \<and> snd (runWithFallback reg ''gemini-vision'' img []) = Inr d \<longrightarrow>
                  map_get (outputs r) ''vision'' = Some d
                  \<and> (\<forall>n2 eng2 report.
                        emitProgress F eng1 2 2 (Some ''Analyzing safety...'') ''loading''
                          = (n2, eng2, None)
                        \<and> snd (runWithFallback reg ''gemini-reasoning'' img [(''detections'', d)])
                          = Inr report \<longrightarrow>
                        map_get (outputs r) ''reasoning'' = Some report))"
proof -
  obtain cs ns eng1 att where t: "try_block F eng reg clock img = (cs, ns, eng1, att)"
    by (cases "try_block F eng reg clock img")
  show ?thesis
  proof (cases att)
    case (Returned r)
    with t have "run_settled (executeImagePipeline F eng reg clock img) = Resolved r"
      and "run_caught (executeImagePipeline F eng reg clock img) = None"
      by (simp_all add: executeImagePipeline_def)
    moreover from t Returned have "startTime r = clock 0 \<and> endTime r \<noteq> None \<and> success r
        \<and> error r = None \<and> map step_name (successful_steps r) = map fst (outputs r)
        \<and> keeps_outputs F eng reg img r"
      by (intro try_block_Returned) simp
    ultimately show ?thesis
      unfolding keeps_outputs_def by simp
  next
    case (Thrown err res k)
    with t have tb: "try_block F eng reg clock img = (cs, ns, eng1, Thrown err res k)" by simp
    then have caught: "run_caught (executeImagePipeline F eng reg clock img) = Some err"
      by (simp add: executeImagePipeline_def split: completion.splits prod.splits option.splits)
    with assms(1) have "err \<noteq> Nullish" by simp
    then obtain msg where msg: "read_message err = Normal msg"
      by (cases err) simp_all
    obtain n eng2 thrown where em: "emitProgress F eng1 0 2 msg ''error'' = (n, eng2, thrown)"
      by (cases "emitProgress F eng1 0 2 msg ''error''")
    have quiet: "thrown = None"
    proof (cases thrown)
      case None
      then show ?thesis .
    next
      case (Some e)
      with em obtain cb where
        "(cb, \<lparr> ev_step = 0, ev_total = 2, ev_message = msg, ev_status = ''error'' \<rparr>, Some e) \<in> set n"
        using emitProgress_thrown by blast
      moreover from tb msg em Some
      have "run_notified (executeImagePipeline F eng reg clock img) = ns @ n"
        by (simp add: executeImagePipeline_def)
      ultimately have "(cb, \<lparr> ev_step = 0, ev_total = 2, ev_message = msg, ev_status = ''error'' \<rparr>, Some e)
          \<in> set (run_notified (executeImagePipeline F eng reg clock img))"
        by simp
      with assms(2) have "Some e = (None :: error option)" by fastforce
      then show ?thesis by simp
    qed
    with tb msg em
    have settled: "run_settled (executeImagePipeline F eng reg clock img) =
        Resolved (complete False (clock k) (res\<lparr> error := Some err \<rparr>))"
      by (simp add: executeImagePipeline_def)
    from tb have "startTime res = clock 0 \<and> error res = None
        \<and> map step_name (successful_steps res) = map fst (outputs res)
        \<and> keeps_outputs F eng reg img res"
      by (rule try_block_Thrown)
    then have "startTime (complete False (clock k) (res\<lparr> error := Some err \<rparr>)) = clock 0"
      and "endTime (complete False (clock k) (res\<lparr> error := Some err \<rparr>)) \<noteq> None"
      and "success (complete False (clock k) (res\<lparr> error := Some err \<rparr>))
            \<longleftrightarrow> error (complete False (clock k) (res\<lparr> error := Some err \<rparr>)) = None"
      and "error (complete False (clock k) (res\<lparr> error := Some err \<rparr>)) = Some err"
      and "map step_name (successful_steps (complete False (clock k) (res\<lparr> error := Some err \<rparr>)))
            = map fst (outputs (complete False (clock k) (res\<lparr> error := Some err \<rparr>)))"
      and "keeps_outputs F eng reg img (complete False (clock k) (res\<lparr> error := Some err \<rparr>))"
      by (simp_all add: complete_def successful_steps_def keeps_outputs_def)
    with settled caught show ?thesis
      unfolding keeps_outputs_def by simp
  qed
qed

theorem pipeline_returns_result_witness:
  "run_caught (executeImagePipeline second_notification_raises \<lparr> progressCallbacks = [5] \<rparr>
       working_registry int 0) = Some (Error ''observer failed'')
   \<and> run_notified (executeImagePipeline second_notification_raises \<lparr> progressCallbacks = [5] \<rparr>
       working_registry int 0)
     = [(5, loading_event, None),
        (5, \<lparr> ev_step = 2, ev_total = 2, ev_message = Some ''Analyzing safety...'',
              ev_status = ''loading'' \<rparr>, Some (Error ''observer failed'')),
        (5, \<lparr> ev_step = 0, ev_total = 2, ev_message = Some ''observer failed'',
              ev_status = ''error'' \<rparr>, None)]
   \<and> (\<exists>r. run_settled (executeImagePipeline second_notification_raises
               \<lparr> progressCallbacks = [5] \<rparr> working_registry int 0) = Resolved r
          \<and> \<not> success r \<and> error r = Some (Error ''observer failed'')
          \<and> map_get (outputs r) ''vision'' = Some 7)"
proof -
  let ?out = "executeImagePipeline second_notification_raises \<lparr> progressCallbacks = [5] \<rparr>
       working_registry int (0::nat)"
  have e1: "emitProgress second_notification_raises \<lparr> progressCallbacks = [5] \<rparr> 1 2
        (Some ''Scanning image...'') ''loading''
      = ([(5, loading_event, None)], \<lparr> progressCallbacks = [5] \<rparr>, None)"
    by (simp add: emitProgress_def second_notification_raises_def loading_event_def)
  have c: "run_caught ?out = Some (Error ''observer failed'')"
    by (simp add: executeImagePipeline_def try_block_def emitProgress_def
        second_notification_raises_def run_working)
  have n: "run_notified ?out
     = [(5, loading_event, None),
        (5, \<lparr> ev_step = 2, ev_total = 2, ev_message = Some ''Analyzing safety...'',
              ev_status = ''loading'' \<rparr>, Some (Error ''observer failed'')),
        (5, \<lparr> ev_step = 0, ev_total = 2, ev_message = Some ''observer failed'',
              ev_status = ''error'' \<rparr>, None)]"
    by (simp add: executeImagePipeline_def try_block_def emitProgress_def
        second_notification_raises_def run_working loading_event_def)
  have h1: "run_caught ?out \<noteq> Some Nullish"
    by (simp add: c)
  have h2: "\<forall>n \<in> set (run_notified ?out). ev_status (fst (snd n)) = ''error'' \<longrightarrow> snd (snd n) = None"
    by (simp add: n loading_event_def)
  have s1: "snd (runWithFallback working_registry ''gemini-vision'' (0::nat) []) = Inr 7"
    by (simp add: run_working)
  from pipeline_returns_result [OF h1 h2] obtain r where
    "run_settled ?out = Resolved r
       \<and> startTime r = int 0 \<and> endTime r \<noteq> None
       \<and> (success r \<longleftrightarrow> error r = None)
       \<and> error r = run_caught ?out
       \<and> map step_name (successful_steps r) = map fst (outputs r)
       \<and> (\<forall>n1 eng1 d.
             emitProgress second_notification_raises \<lparr> progressCallbacks = [5] \<rparr> 1 2
               (Some ''Scanning image...'') ''loading'' = (n1, eng1, None)
             \<and> snd (runWithFallback working_registry ''gemini-vision'' (0::nat) []) = Inr d \<longrightarrow>
             map_get (outputs r) ''vision'' = Some d
             \<and> (\<forall>n2 eng2 report.
                   emitProgress second_notification_raises eng1 2 2 (Some ''Analyzing safety...'')
                     ''loading'' = (n2, eng2, None)
                   \<and> snd (runWithFallback working_registry ''gemini-reasoning'' 0 [(''detections'', d)])
                     = Inr report \<longrightarrow>
                   map_get (outputs r) ''reasoning'' = Some report))" ..
  then have r: "run_settled ?out = Resolved r" "(success r \<longleftrightarrow> error r = None)"
      "error r = run_caught ?out"
    and keep: "\<And>n1 eng1 d.
        emitProgress second_notification_raises \<lparr> progressCallbacks = [5] \<rparr> 1 2
          (Some ''Scanning image...'') ''loading'' = (n1, eng1, None)
        \<and> snd (runWithFallback working_registry ''gemini-vision'' (0::nat) []) = Inr d \<Longrightarrow>
        map_get (outputs r) ''vision'' = Some d"
    by simp_all
  from e1 s1 have "map_get (outputs r) ''vision'' = Some 7"
    by (intro keep conjI)
  with r c have "run_settled ?out = Resolved r \<and> \<not> success r
      \<and> error r = Some (Error ''observer failed'') \<and> map_get (outputs r) ''vision'' = Some 7"
    by simp
  then have "\<exists>r. run_settled ?out = Resolved r \<and> \<not> success r
      \<and> error r = Some (Error ''observer failed'') \<and> map_get (outputs r) ''vision'' = Some 7"
    by blast
  with c n show ?thesis by blast
qed

text \<open>
  C10: the unsubscribe function returned by \<open>onProgress(callback)\<close> removes the first
  occurrence of \<open>callback\<close> that is in the observer list when it is called. Registering
  the same callback twice returns the same unsubscribe function twice; calling one of
  them twice removes both registrations; and calling it a second time changes nothing
  exactly when the callback stood in the list at most once.
\<close>

theorem unsubscribe_first_occurrence:
  "snd (onProgress cb eng0) eng = eng\<lparr> progressCallbacks := remove1 cb (progressCallbacks eng) \<rparr>
   \<and> snd (onProgress cb (fst (onProgress cb eng0))) = snd (onProgress cb eng0)
   \<and> progressCallbacks (fst (onProgress cb (fst (onProgress cb eng0)))) = progressCallbacks eng0 @ [cb, cb]
   \<and> (cb \<notin> set (progressCallbacks eng0) \<longrightarrow>
        snd (onProgress cb eng0) (snd (onProgress cb eng0)
          (fst (onProgress cb (fst (onProgress cb eng0))))) = eng0)
   \<and> (snd (onProgress cb eng0) (snd (onProgress cb eng0) eng) = snd (onProgress cb eng0) eng
        \<longleftrightarrow> count_list (progressCallbacks eng) cb \<le> 1)"
proof (intro conjI impI)
  show "snd (onProgress cb eng0) eng = eng\<lparr> progressCallbacks := remove1 cb (progressCallbacks eng) \<rparr>"
    by (simp add: onProgress_def unsubscribe_eq)
  show "snd (onProgress cb (fst (onProgress cb eng0))) = snd (onProgress cb eng0)"
    by (simp add: onProgress_def)
  show "progressCallbacks (fst (onProgress cb (fst (onProgress cb eng0)))) = progressCallbacks eng0 @ [cb, cb]"
    by (simp add: onProgress_def)
  show "snd (onProgress cb eng0) (snd (onProgress cb eng0)
          (fst (onProgress cb (fst (onProgress cb eng0))))) = eng0"
    if "cb \<notin> set (progressCallbacks eng0)"
    using that by (simp add: onProgress_def unsubscribe_eq remove1_append)
  show "snd (onProgress cb eng0) (snd (onProgress cb eng0) eng) = snd (onProgress cb eng0) eng
        \<longleftrightarrow> count_list (progressCallbacks eng) cb \<le> 1"
    by (simp add: onProgress_def unsubscribe_eq engine_update_eq_iff remove1_twice_iff)
qed

theorem unsubscribe_first_occurrence_witness:
  "5 \<notin> set (progressCallbacks \<lparr> progressCallbacks = [6] \<rparr>)
   \<and> snd (onProgress 5 \<lparr> progressCallbacks = [6] \<rparr>)
       (snd (onProgress 5 \<lparr> progressCallbacks = [6] \<rparr>)
         (fst (onProgress 5 (fst (onProgress 5 \<lparr> progressCallbacks = [6] \<rparr>)))))
       = \<lparr> progressCallbacks = [6] \<rparr>
   \<and> count_list (progressCallbacks \<lparr> progressCallbacks = [5, 6, 5] \<rparr>) 5 = 2
   \<and> snd (onProgress 5 \<lparr> progressCallbacks = [6] \<rparr>)
       (snd (onProgress 5 \<lparr> progressCallbacks = [6] \<rparr>) \<lparr> progressCallbacks = [5, 6, 5] \<rparr>)
       \<noteq> snd (onProgress 5 \<lparr> progressCallbacks = [6] \<rparr>) \<lparr> progressCallbacks = [5, 6, 5] \<rparr>"
proof -
  have h: "5 \<notin> set (progressCallbacks \<lparr> progressCallbacks = [6] \<rparr>)"
    by simp
  have c: "count_list (progressCallbacks \<lparr> progressCallbacks = [5, 6, 5] \<rparr>) 5 = 2"
    by simp
  then have c': "\<not> count_list (progressCallbacks \<lparr> progressCallbacks = [5, 6, 5] \<rparr>) 5 \<le> 1"
    by simp
  from unsubscribe_first_occurrence [where cb = 5
      and ?eng0.0 = "\<lparr> progressCallbacks = [6] \<rparr>"
      and eng = "\<lparr> progressCallbacks = [5, 6, 5] \<rparr>"] h c c'
  show ?thesis by blast
qed

end
